theory Spec2Isabelle
  imports Main
begin

section \<open>Shared primitives\<close>

abbreviation LF :: char where "LF \<equiv> CHR 0x0A"
abbreviation CR :: char where "CR \<equiv> CHR 0x0D"

text \<open>
  Strings are byte lists. \<open>String.prototype.trim\<close> removes leading and trailing white
  space; the ASCII white space characters are modelled. (A line made only of non-ASCII
  white space is not valid JSON either, so the guard of \<open>handleLine\<close> and the decoder
  agree on it.)
\<close>

definition js_whitespace :: "char \<Rightarrow> bool" where
  "js_whitespace c \<longleftrightarrow> c \<in> {CHR 0x09, CHR 0x0A, CHR 0x0B, CHR 0x0C, CHR 0x0D, CHR 0x20}"

definition trim :: "string \<Rightarrow> string" where
  "trim s = rev (dropWhile js_whitespace (rev (dropWhile js_whitespace s)))"

text \<open>
  The lines that \<open>readline.createInterface({input, crlfDelay: Infinity})\<close> delivers for a
  byte stream: a line ends at LF, at CR LF, or at a CR that no LF follows; what is left
  after the last line end is delivered as a line when it is not empty.
\<close>

fun readline_lines :: "string \<Rightarrow> string list" where
  "readline_lines [] = []"
| "readline_lines (c # cs) =
     (if c = LF then [] # readline_lines cs
      else if c = CR then
        (case cs of
           [] \<Rightarrow> [[]]
         | d # ds \<Rightarrow> if d = LF then [] # readline_lines ds else [] # readline_lines cs)
      else
        (case readline_lines cs of
           [] \<Rightarrow> [[c]]
         | l # ls \<Rightarrow> (c # l) # ls))"

text \<open>\<open>Array.prototype.join\<close> with a separator.\<close>

fun join :: "string \<Rightarrow> string list \<Rightarrow> string" where
  "join sep [] = []"
| "join sep [x] = x"
| "join sep (x # y # ys) = x @ sep @ join sep (y # ys)"

text \<open>\<open>Array.prototype.findIndex\<close>; \<open>None\<close> stands for the result \<open>-1\<close>.\<close>

fun findIndex :: "('a \<Rightarrow> bool) \<Rightarrow> 'a list \<Rightarrow> nat option" where
  "findIndex P [] = None"
| "findIndex P (x # xs) =
     (if P x then Some 0 else map_option Suc (findIndex P xs))"

section \<open>The process channel (class \<open>Claude\<close>, claude.ts)\<close>

subsection \<open>Events of the stream protocol (schemas.ts)\<close>

text \<open>
  \<open>ClaudeStreamMessageSchema\<close> and the schemas it nests. The schemas are
  \<open>passthrough\<close>; fields other than the declared ones are not read by the channel and
  are left out.
\<close>

record stream_content_block =
  block_type :: string
  block_text :: "string option"

datatype stream_content =
    ContentString string
  | ContentBlocks "stream_content_block list"

record stream_payload =
  payload_role :: "string option"
  payload_content :: "stream_content option"

record stream_message =
  msg_type :: string
  msg_subtype :: "string option"
  msg_message :: "stream_payload option"
  session_id :: "string option"
  msg_result :: "string option"

record claude_response =
  resp_sessionId :: string
  resp_messages :: "stream_message list"
  resp_text :: string
  resp_result :: "stream_message option"

subsection \<open>State of a channel\<close>

text \<open>
  \<open>PendingQuery\<close>: the \<open>resolve\<close> and \<open>reject\<close> callbacks are the two ways of settling
  the promise that \<open>query\<close> returned; a settlement is recorded in the channel's effects.
\<close>

record pending_query =
  pq_messages :: "stream_message list"
  pq_text :: string

datatype channel_error =
    QueryInProgress          \<comment> \<open>\<open>A query is already in progress\<close>\<close>
  | NotRunning               \<comment> \<open>\<open>Claude process is not running\<close>\<close>
  | ProcessExited "int option"  \<comment> \<open>\<open>Process exited with code ${code}\<close>\<close>

datatype claude_event =
    ReadyEv
  | MessageEv stream_message
  | ResponseEv claude_response
  | ExitEv "int option" "string option"

text \<open>
  What a handler does to the outside, in the order it does it: an event emitted to the
  listeners, the pending promise resolved or rejected, the request envelope for a prompt
  written as one line to the standard input of the process.
\<close>

datatype effect =
    Emit claude_event
  | Resolve claude_response
  | Reject channel_error
  | StdinWrite string

record child_process =
  exitCode :: "int option"
  has_stdin :: bool

record claude =
  process :: "child_process option"
  readline_open :: bool
  ch_sessionId :: "string option"
  pendingQuery :: "pending_query option"
  effects :: "effect list"

text \<open>The result of a call of \<open>query\<close>: a promise already rejected, or one left pending.\<close>

datatype query_promise = Rejected channel_error | Pending

subsection \<open>Operations\<close>

definition new_claude :: claude where
  "new_claude = \<lparr>process = None, readline_open = False, ch_sessionId = None,
     pendingQuery = None, effects = []\<rparr>"

text \<open>\<open>start\<close>, for a spawn that delivers its streams.\<close>

definition start :: "claude \<Rightarrow> claude" where
  "start c = c\<lparr>process := Some \<lparr>exitCode = None, has_stdin = True\<rparr>, readline_open := True\<rparr>"

definition isRunning :: "claude \<Rightarrow> bool" where
  "isRunning c = (case process c of None \<Rightarrow> False | Some p \<Rightarrow> exitCode p = None)"

definition emit :: "claude_event \<Rightarrow> claude \<Rightarrow> claude" where
  "emit e c = c\<lparr>effects := effects c @ [Emit e]\<rparr>"

text \<open>The \<open>exit\<close> handler installed by \<open>start\<close>.\<close>

definition on_exit :: "int option \<Rightarrow> string option \<Rightarrow> claude \<Rightarrow> claude" where
  "on_exit code signal c =
     (let c1 = c\<lparr>process := None, readline_open := False\<rparr>;
          c2 = (case pendingQuery c1 of
                  Some _ \<Rightarrow> c1\<lparr>effects := effects c1 @ [Reject (ProcessExited code)],
                                pendingQuery := None\<rparr>
                | None \<Rightarrow> c1)
      in emit (ExitEv code signal) c2)"

text \<open>The loop over the content blocks of an assistant event: \<open>block.text\<close> must be truthy.\<close>

fun append_text_blocks :: "stream_content_block list \<Rightarrow> string \<Rightarrow> string" where
  "append_text_blocks [] text = text"
| "append_text_blocks (block # blocks) text =
     append_text_blocks blocks
       (if block_type block = ''text'' \<and> block_text block \<noteq> None \<and> block_text block \<noteq> Some []
        then text @ the (block_text block) else text)"

definition accumulate_text :: "stream_message \<Rightarrow> string \<Rightarrow> string" where
  "accumulate_text m text =
     (if msg_type m = ''assistant'' then
        (case msg_message m of
           None \<Rightarrow> text
         | Some payload \<Rightarrow>
             (case payload_content payload of
                None \<Rightarrow> text
              | Some (ContentString s) \<Rightarrow> text
              | Some (ContentBlocks blocks) \<Rightarrow> append_text_blocks blocks text))
      else text)"

text \<open>
  \<open>handleLine\<close>. \<open>parse\<close> is \<open>JSON.parse\<close> (\<open>Inl\<close> the error thrown) and \<open>validate\<close> is
  \<open>ClaudeStreamMessageSchema.safeParse\<close>.
\<close>

definition handleLine ::
  "(string \<Rightarrow> string + 'j) \<Rightarrow> ('j \<Rightarrow> stream_message option) \<Rightarrow> string \<Rightarrow> claude \<Rightarrow> claude" where
  "handleLine parse validate line c =
     (if trim line = [] then c
      else case parse line of
        Inl _ \<Rightarrow> c
      | Inr parsed \<Rightarrow>
          (case validate parsed of
             None \<Rightarrow> c
           | Some message \<Rightarrow>
               (let c1 = c\<lparr>ch_sessionId := session_id message\<rparr>;
                    c2 = emit (MessageEv message) c1
                in case pendingQuery c2 of
                     None \<Rightarrow> c2
                   | Some pq \<Rightarrow>
                       (let pq1 = pq\<lparr>pq_messages := pq_messages pq @ [message]\<rparr>;
                            pq2 = pq1\<lparr>pq_text := accumulate_text message (pq_text pq1)\<rparr>
                        in if msg_type message = ''result'' then
                             (let response = \<lparr>resp_sessionId =
                                      (case ch_sessionId c2 of None \<Rightarrow> [] | Some s \<Rightarrow> s),
                                    resp_messages = pq_messages pq2,
                                    resp_text = pq_text pq2,
                                    resp_result = Some message\<rparr>
                              in emit (ResponseEv response)
                                   (c2\<lparr>effects := effects c2 @ [Resolve response],
                                       pendingQuery := None\<rparr>))
                           else c2\<lparr>pendingQuery := Some pq2\<rparr>))))"

definition writeMessage :: "string \<Rightarrow> claude \<Rightarrow> channel_error + claude" where
  "writeMessage prompt c =
     (if \<not> isRunning c \<or> \<not> (case process c of None \<Rightarrow> False | Some p \<Rightarrow> has_stdin p)
      then Inl NotRunning
      else Inr (c\<lparr>effects := effects c @ [StdinWrite prompt]\<rparr>))"

definition query :: "string \<Rightarrow> claude \<Rightarrow> query_promise \<times> claude" where
  "query prompt c =
     (case pendingQuery c of
        Some _ \<Rightarrow> (Rejected QueryInProgress, c)
      | None \<Rightarrow>
          (let c1 = c\<lparr>pendingQuery := Some \<lparr>pq_messages = [], pq_text = []\<rparr>\<rparr>
           in case writeMessage prompt c1 of
                Inr c2 \<Rightarrow> (Pending, c2)
              | Inl error \<Rightarrow> (Rejected error, c1\<lparr>pendingQuery := None\<rparr>)))"

text \<open>A run of a channel: what reaches it, in order.\<close>

datatype action =
    Line string
  | Query string
  | Exit "int option" "string option"

fun step ::
  "(string \<Rightarrow> string + 'j) \<Rightarrow> ('j \<Rightarrow> stream_message option) \<Rightarrow> claude \<Rightarrow> action \<Rightarrow> claude" where
  "step parse validate c (Line line) = handleLine parse validate line c"
| "step parse validate c (Query prompt) = snd (query prompt c)"
| "step parse validate c (Exit code signal) = on_exit code signal c"

definition run ::
  "(string \<Rightarrow> string + 'j) \<Rightarrow> ('j \<Rightarrow> stream_message option) \<Rightarrow> action list \<Rightarrow> claude \<Rightarrow> claude" where
  "run parse validate actions c = foldl (step parse validate) c actions"

text \<open>The event a line decodes to, when it is a valid one.\<close>

definition decode_event ::
  "(string \<Rightarrow> string + 'j) \<Rightarrow> ('j \<Rightarrow> stream_message option) \<Rightarrow> string \<Rightarrow> stream_message option" where
  "decode_event parse validate line =
     (if trim line = [] then None
      else case parse line of Inl _ \<Rightarrow> None | Inr parsed \<Rightarrow> validate parsed)"

section \<open>The log reader (classes \<open>JsonlFile\<close> and \<open>Conversation\<close>)\<close>

subsection \<open>Records of a log (schemas.ts)\<close>

text \<open>
  \<open>MessageSchema\<close>: a user turn, an assistant turn or a file history snapshot. The
  fields the reader looks at are kept apart; the payload of a turn (\<open>message\<close> and the
  optional fields) and the nested snapshot are carried as uninterpreted text.
\<close>

record message_fields =
  uuid :: string
  parentUuid :: "string option"
  timestamp :: string
  sessionId :: string
  version :: string
  cwd :: string
  gitBranch :: "string option"
  isSidechain :: bool
  body :: string

datatype message =
    UserMessage message_fields
  | AssistantMessage message_fields
  | FileHistorySnapshot (messageId: string) (isSnapshotUpdate: bool) (snapshot: string)

datatype conversation_event =
    ParseError string string    \<comment> \<open>\<open>parseError\<close> with the raw line and the error\<close>
  | NewMessage message          \<comment> \<open>\<open>message\<close>\<close>

record conversation =
  messages :: "message list"
  byteOffset :: nat
  conv_sessionId :: "string option"
  conv_isSidechain :: "bool option"
  emitNewMessages :: bool
  emitted :: "conversation_event list"

definition new_conversation :: conversation where
  "new_conversation = \<lparr>messages = [], byteOffset = 0, conv_sessionId = None,
     conv_isSidechain = None, emitNewMessages = False, emitted = []\<rparr>"

subsection \<open>Reading\<close>

text \<open>
  \<open>Conversation.processObject\<close>; \<open>validate\<close> is \<open>MessageSchema.safeParse\<close>. It returns
  nothing, so the \<open>break\<close> of \<open>JsonlFile.load\<close> is never taken.
\<close>

definition latch_session :: "message_fields \<Rightarrow> conversation \<Rightarrow> conversation" where
  "latch_session f c =
     (if conv_sessionId c = None
      then c\<lparr>conv_sessionId := Some (sessionId f), conv_isSidechain := Some (isSidechain f)\<rparr>
      else c)"

definition processObject :: "('j \<Rightarrow> message option) \<Rightarrow> 'j \<Rightarrow> conversation \<Rightarrow> conversation" where
  "processObject validate obj c =
     (case validate obj of
        None \<Rightarrow> c
      | Some data \<Rightarrow>
          (let c1 = c\<lparr>messages := messages c @ [data]\<rparr>;
               c2 = (case data of
                       FileHistorySnapshot _ _ _ \<Rightarrow> c1
                     | UserMessage f \<Rightarrow> latch_session f c1
                     | AssistantMessage f \<Rightarrow> latch_session f c1)
           in if emitNewMessages c2
              then c2\<lparr>emitted := emitted c2 @ [NewMessage data]\<rparr>
              else c2))"

text \<open>The loop of \<open>JsonlFile.load\<close> over the lines; \<open>parse\<close> is \<open>JSON.parse\<close>.\<close>

fun load_lines ::
  "(string \<Rightarrow> string + 'j) \<Rightarrow> ('j \<Rightarrow> message option) \<Rightarrow> string list \<Rightarrow> conversation \<Rightarrow> conversation" where
  "load_lines parse validate [] c = c"
| "load_lines parse validate (line # rest) c =
     (case parse line of
        Inr obj \<Rightarrow> load_lines parse validate rest (processObject validate obj c)
      | Inl error \<Rightarrow>
          load_lines parse validate rest (c\<lparr>emitted := emitted c @ [ParseError line error]\<rparr>))"

text \<open>
  \<open>JsonlFile.load(options)\<close> on a file with the given content: the stream starts at
  byte \<open>start_at\<close>, the option \<open>start\<close> (\<open>0\<close> without options).
\<close>

definition jsonl_load ::
  "(string \<Rightarrow> string + 'j) \<Rightarrow> ('j \<Rightarrow> message option) \<Rightarrow> string \<Rightarrow> nat \<Rightarrow> conversation \<Rightarrow> conversation" where
  "jsonl_load parse validate file start_at c =
     load_lines parse validate (readline_lines (drop start_at file)) c"

definition getFileSize :: "string \<Rightarrow> nat" where
  "getFileSize file = length file"

text \<open>\<open>Conversation.load\<close>, the full parse.\<close>

definition load ::
  "(string \<Rightarrow> string + 'j) \<Rightarrow> ('j \<Rightarrow> message option) \<Rightarrow> string \<Rightarrow> conversation \<Rightarrow> conversation" where
  "load parse validate file c =
     (let c1 = c\<lparr>messages := [], conv_sessionId := None, conv_isSidechain := None\<rparr>;
          c2 = jsonl_load parse validate file 0 c1
      in c2\<lparr>byteOffset := getFileSize file\<rparr>)"

text \<open>\<open>Conversation.loadNewMessages\<close>, the refresh.\<close>

definition loadNewMessages ::
  "(string \<Rightarrow> string + 'j) \<Rightarrow> ('j \<Rightarrow> message option) \<Rightarrow> string \<Rightarrow> conversation \<Rightarrow> conversation" where
  "loadNewMessages parse validate file c =
     (let currentSize = getFileSize file
      in if currentSize \<le> byteOffset c then c
         else
           (let c1 = c\<lparr>emitNewMessages := True\<rparr>;
                c2 = jsonl_load parse validate file (byteOffset c) c1;
                c3 = c2\<lparr>emitNewMessages := False\<rparr>
            in c3\<lparr>byteOffset := currentSize\<rparr>))"

text \<open>\<open>Conversation.create\<close>.\<close>

definition create ::
  "(string \<Rightarrow> string + 'j) \<Rightarrow> ('j \<Rightarrow> message option) \<Rightarrow> string \<Rightarrow> conversation" where
  "create parse validate file = load parse validate file new_conversation"

subsection \<open>Rewriting\<close>

text \<open>The predicate of \<open>getMessage\<close> and \<open>deleteMessage\<close>.\<close>

fun matches :: "string \<Rightarrow> message \<Rightarrow> bool" where
  "matches wanted (FileHistorySnapshot i u s) = (i = wanted)"
| "matches wanted (UserMessage f) = (uuid f = wanted)"
| "matches wanted (AssistantMessage f) = (uuid f = wanted)"

definition getMessage :: "string \<Rightarrow> conversation \<Rightarrow> message option" where
  "getMessage wanted c = find (matches wanted) (messages c)"

text \<open>The file operations take the content of the file and return the new content.\<close>

definition clear :: "string \<times> conversation \<Rightarrow> string \<times> conversation" where
  "clear fc =
     ([], (snd fc)\<lparr>messages := [], conv_sessionId := None, conv_isSidechain := None,
                    byteOffset := 0\<rparr>)"

text \<open>
  \<open>Conversation.deleteMessage\<close>; \<open>stringify\<close> is \<open>JSON.stringify\<close> on a record.
  \<open>Buffer.byteLength\<close> is the length of the byte list.
\<close>

definition deleteMessage ::
  "(message \<Rightarrow> string) \<Rightarrow> string \<Rightarrow> string \<times> conversation \<Rightarrow> bool \<times> string \<times> conversation" where
  "deleteMessage stringify wanted fc =
     (case findIndex (matches wanted) (messages (snd fc)) of
        None \<Rightarrow> (False, fc)
      | Some index \<Rightarrow>
          (let remaining = take index (messages (snd fc)) @ drop (Suc index) (messages (snd fc));
               content = join [LF] (map stringify remaining);
               written = (if content \<noteq> [] then content @ [LF] else [])
           in (True, written, (snd fc)\<lparr>messages := remaining, byteOffset := length written\<rparr>)))"

subsection \<open>A writer appending to the log while a reader follows it\<close>

datatype log_op = Append string | Refresh

fun log_step ::
  "(string \<Rightarrow> string + 'j) \<Rightarrow> ('j \<Rightarrow> message option) \<Rightarrow> string \<times> conversation \<Rightarrow> log_op
     \<Rightarrow> string \<times> conversation" where
  "log_step parse validate (file, c) (Append bytes) = (file @ bytes, c)"
| "log_step parse validate (file, c) Refresh = (file, loadNewMessages parse validate file c)"

definition log_run ::
  "(string \<Rightarrow> string + 'j) \<Rightarrow> ('j \<Rightarrow> message option) \<Rightarrow> log_op list \<Rightarrow> string \<times> conversation
     \<Rightarrow> string \<times> conversation" where
  "log_run parse validate ops fc = foldl (log_step parse validate) fc ops"

text \<open>The bytes appended by a list of operations, and content that ends at a line end.\<close>

fun appended :: "log_op list \<Rightarrow> string list" where
  "appended [] = []"
| "appended (Append bytes # ops) = bytes # appended ops"
| "appended (Refresh # ops) = appended ops"

definition whole_lines :: "string \<Rightarrow> bool" where
  "whole_lines bytes \<longleftrightarrow> bytes = [] \<or> last bytes = LF"

text \<open>What the claims compare: the records a list of lines holds, and its lines in error.\<close>

definition decode_record ::
  "(string \<Rightarrow> string + 'j) \<Rightarrow> ('j \<Rightarrow> message option) \<Rightarrow> string \<Rightarrow> message option" where
  "decode_record parse validate line =
     (case parse line of Inl _ \<Rightarrow> None | Inr obj \<Rightarrow> validate obj)"

definition records_of ::
  "(string \<Rightarrow> string + 'j) \<Rightarrow> ('j \<Rightarrow> message option) \<Rightarrow> string list \<Rightarrow> message list" where
  "records_of parse validate ls = List.map_filter (decode_record parse validate) ls"

definition syntax_error :: "(string \<Rightarrow> string + 'j) \<Rightarrow> string \<Rightarrow> conversation_event option" where
  "syntax_error parse line =
     (case parse line of Inl error \<Rightarrow> Some (ParseError line error) | Inr _ \<Rightarrow> None)"

definition parse_errors ::
  "(string \<Rightarrow> string + 'j) \<Rightarrow> string list \<Rightarrow> conversation_event list" where
  "parse_errors parse ls = List.map_filter (syntax_error parse) ls"

text \<open>
  What a reader has learned from a log, and a reader in step with a file: it has consumed
  a prefix of whole lines and holds what a full parse of that prefix gives.
\<close>

definition view :: "conversation \<Rightarrow> message list \<times> string option \<times> bool option" where
  "view c = (messages c, conv_sessionId c, conv_isSidechain c)"

definition in_step ::
  "(string \<Rightarrow> string + 'j) \<Rightarrow> ('j \<Rightarrow> message option) \<Rightarrow> string \<Rightarrow> conversation \<Rightarrow> bool" where
  "in_step parse validate file c \<longleftrightarrow>
     byteOffset c \<le> length file \<and> whole_lines (take (byteOffset c) file) \<and> whole_lines file \<and>
     view c = view (create parse validate (take (byteOffset c) file))"

text \<open>A file made of the given lines, each followed by a line feed.\<close>

definition unlines :: "string list \<Rightarrow> string" where
  "unlines ls = concat (map (\<lambda>l. l @ [LF]) ls)"

section \<open>Sample data\<close>

text \<open>
  Lines as they occur on the two streams, with the values they decode to. On these
  lines, and on the pieces of them used below, \<open>sample_parse\<close> agrees with \<open>JSON.parse\<close>:
  it accepts a text that starts and ends with a brace and rejects the rest, the empty
  line included.
\<close>

definition sample_parse :: "string \<Rightarrow> string + string" where
  "sample_parse line =
     (case line of
        [] \<Rightarrow> Inl ''SyntaxError''
      | c # cs \<Rightarrow> if c = CHR ''{'' \<and> last line = CHR ''}'' then Inr line else Inl ''SyntaxError'')"

definition line_init :: string where
  \<open>line_init = ''{"type":"system","subtype":"init","session_id":"S1"}''\<close>

definition line_hel :: string where
  \<open>line_hel = ''{"type":"assistant","message":{"content":[{"type":"text","text":"hel"}]}}''\<close>

definition line_lo :: string where
  \<open>line_lo = ''{"type":"assistant","message":{"content":[{"type":"text","text":"lo"}]}}''\<close>

definition line_result :: string where
  \<open>line_result = ''{"type":"result","session_id":"S9"}''\<close>

definition line_result_bare :: string where
  \<open>line_result_bare = ''{"type":"result"}''\<close>

definition event_init :: stream_message where
  "event_init = \<lparr>msg_type = ''system'', msg_subtype = Some ''init'', msg_message = None,
     session_id = Some ''S1'', msg_result = None\<rparr>"

definition event_text :: "string \<Rightarrow> stream_message" where
  "event_text t = \<lparr>msg_type = ''assistant'', msg_subtype = None,
     msg_message = Some \<lparr>payload_role = None,
       payload_content = Some (ContentBlocks [\<lparr>block_type = ''text'', block_text = Some t\<rparr>])\<rparr>,
     session_id = None, msg_result = None\<rparr>"

definition event_result :: "string option \<Rightarrow> stream_message" where
  "event_result s = \<lparr>msg_type = ''result'', msg_subtype = None, msg_message = None,
     session_id = s, msg_result = None\<rparr>"

definition sample_event :: "string \<Rightarrow> stream_message option" where
  "sample_event obj =
     (if obj = line_init then Some event_init
      else if obj = line_hel then Some (event_text ''hel'')
      else if obj = line_lo then Some (event_text ''lo'')
      else if obj = line_result then Some (event_result (Some ''S9''))
      else if obj = line_result_bare then Some (event_result None)
      else None)"

definition line_user_1 :: string where
  \<open>line_user_1 = ''{"uuid":"11111111-1111-4111-8111-111111111111","parentUuid":null,"timestamp":"2025-01-01T00:00:00.000Z","sessionId":"99999999-9999-4999-8999-999999999999","version":"2.0.0","cwd":"/tmp","isSidechain":false,"userType":"external","type":"user","message":{"role":"user","content":"hi"}}''\<close>

definition line_user_2 :: string where
  \<open>line_user_2 = ''{"uuid":"22222222-2222-4222-8222-222222222222","parentUuid":"11111111-1111-4111-8111-111111111111","timestamp":"2025-01-01T00:00:05.000Z","sessionId":"99999999-9999-4999-8999-999999999999","version":"2.0.0","cwd":"/tmp","isSidechain":false,"userType":"external","type":"user","message":{"role":"user","content":"bye"}}''\<close>

definition line_snapshot :: string where
  \<open>line_snapshot = ''{"type":"file-history-snapshot","messageId":"33333333-3333-4333-8333-333333333333","isSnapshotUpdate":false,"snapshot":{"messageId":"33333333-3333-4333-8333-333333333333","trackedFileBackups":{},"timestamp":"2025-01-01T00:00:00.000Z"}}''\<close>

definition record_user_1 :: message where
  \<open>record_user_1 = UserMessage \<lparr>uuid = ''11111111-1111-4111-8111-111111111111'',
     parentUuid = None, timestamp = ''2025-01-01T00:00:00.000Z'',
     sessionId = ''99999999-9999-4999-8999-999999999999'', version = ''2.0.0'', cwd = ''/tmp'',
     gitBranch = None, isSidechain = False, body = ''{"role":"user","content":"hi"}''\<rparr>\<close>

definition record_user_2 :: message where
  \<open>record_user_2 = UserMessage \<lparr>uuid = ''22222222-2222-4222-8222-222222222222'',
     parentUuid = Some ''11111111-1111-4111-8111-111111111111'',
     timestamp = ''2025-01-01T00:00:05.000Z'',
     sessionId = ''99999999-9999-4999-8999-999999999999'', version = ''2.0.0'', cwd = ''/tmp'',
     gitBranch = None, isSidechain = False, body = ''{"role":"user","content":"bye"}''\<rparr>\<close>

definition record_snapshot :: message where
  \<open>record_snapshot = FileHistorySnapshot ''33333333-3333-4333-8333-333333333333'' False
     ''{"messageId":"33333333-3333-4333-8333-333333333333","trackedFileBackups":{},"timestamp":"2025-01-01T00:00:00.000Z"}''\<close>

definition sample_record :: "string \<Rightarrow> message option" where
  "sample_record obj =
     (if obj = line_user_1 then Some record_user_1
      else if obj = line_user_2 then Some record_user_2
      else if obj = line_snapshot then Some record_snapshot
      else None)"

definition sample_stringify :: "message \<Rightarrow> string" where
  "sample_stringify m =
     (if m = record_user_1 then line_user_1
      else if m = record_user_2 then line_user_2
      else if m = record_snapshot then line_snapshot
      else ''{}'')"

text \<open>A channel that has seen one event with a session identifier.\<close>

definition sample_channel :: claude where
  "sample_channel = handleLine sample_parse sample_event line_init (start new_claude)"

text \<open>A conversation read from a log of three records.\<close>

definition sample_log :: string where
  "sample_log = unlines [line_snapshot, line_user_1, line_user_2]"

definition sample_conversation :: conversation where
  "sample_conversation = create sample_parse sample_record sample_log"

text \<open>The first sample line cut in two after sixty bytes, and a writer that appends the
  two pieces with a refresh of the reader after each.\<close>

definition line_user_1_head :: string where
  \<open>line_user_1_head = ''{"uuid":"11111111-1111-4111-8111-111111111111","parentUuid":''\<close>

definition line_user_1_tail :: string where
  \<open>line_user_1_tail = ''null,"timestamp":"2025-01-01T00:00:00.000Z","sessionId":"99999999-9999-4999-8999-999999999999","version":"2.0.0","cwd":"/tmp","isSidechain":false,"userType":"external","type":"user","message":{"role":"user","content":"hi"}}''\<close>

definition split_ops :: "log_op list" where
  "split_ops = [Append line_user_1_head, Refresh, Append (line_user_1_tail @ [LF]), Refresh]"

text \<open>A writer that appends whole lines.\<close>

definition sample_ops :: "log_op list" where
  "sample_ops = [Append (unlines [line_user_1]), Refresh, Append (unlines [line_user_2])]"

text \<open>The sample channel with a query under way.\<close>

definition sample_busy :: claude where
  "sample_busy = snd (query ''question'' sample_channel)"

section \<open>Properties of the process channel\<close>

subsection \<open>What one line does\<close>

lemma handleLine_ignored:
  "decode_event parse validate line = None \<Longrightarrow> handleLine parse validate line c = c"
  by (auto simp: decode_event_def handleLine_def split: if_splits sum.splits option.splits)

lemma handleLine_idle:
  assumes "decode_event parse validate line = Some m" and "pendingQuery c = None"
  shows "handleLine parse validate line c =
     c\<lparr>ch_sessionId := session_id m, effects := effects c @ [Emit (MessageEv m)]\<rparr>"
  using assms
  by (auto simp: decode_event_def handleLine_def emit_def Let_def
      split: if_splits sum.splits option.splits)

lemma handleLine_collect:
  assumes "decode_event parse validate line = Some m" and "pendingQuery c = Some pq"
    and "msg_type m \<noteq> ''result''"
  shows "handleLine parse validate line c =
     c\<lparr>ch_sessionId := session_id m, effects := effects c @ [Emit (MessageEv m)],
       pendingQuery := Some \<lparr>pq_messages = pq_messages pq @ [m],
                             pq_text = accumulate_text m (pq_text pq)\<rparr>\<rparr>"
  using assms
  by (auto simp: decode_event_def handleLine_def emit_def Let_def
      split: if_splits sum.splits option.splits)

lemma handleLine_result:
  assumes "decode_event parse validate line = Some m" and "pendingQuery c = Some pq"
    and "msg_type m = ''result''"
  shows "handleLine parse validate line c =
     c\<lparr>ch_sessionId := session_id m,
       effects := effects c @
         [Emit (MessageEv m),
          Resolve \<lparr>resp_sessionId = (case session_id m of None \<Rightarrow> [] | Some s \<Rightarrow> s),
                   resp_messages = pq_messages pq @ [m], resp_text = pq_text pq,
                   resp_result = Some m\<rparr>,
          Emit (ResponseEv \<lparr>resp_sessionId = (case session_id m of None \<Rightarrow> [] | Some s \<Rightarrow> s),
                   resp_messages = pq_messages pq @ [m], resp_text = pq_text pq,
                   resp_result = Some m\<rparr>)],
       pendingQuery := None\<rparr>"
  using assms
  by (auto simp: decode_event_def handleLine_def emit_def Let_def accumulate_text_def
      split: if_splits sum.splits option.splits)

subsection \<open>What one query does\<close>

lemma query_busy:
  "pendingQuery c = Some pq \<Longrightarrow> query prompt c = (Rejected QueryInProgress, c)"
  by (simp add: query_def)

lemma query_dead:
  assumes "\<not> isRunning c" and "pendingQuery c = None"
  shows "query prompt c = (Rejected NotRunning, c)"
  using assms by (cases c) (simp add: query_def writeMessage_def isRunning_def)

lemma query_accepted:
  assumes "isRunning c" and "process c = Some p" and "has_stdin p" and "pendingQuery c = None"
  shows "query prompt c =
     (Pending, c\<lparr>pendingQuery := Some \<lparr>pq_messages = [], pq_text = []\<rparr>,
                 effects := effects c @ [StdinWrite prompt]\<rparr>)"
  using assms by (simp add: query_def writeMessage_def isRunning_def)

lemma on_exit_not_running: "\<not> isRunning (on_exit code signal c)"
  by (simp add: on_exit_def isRunning_def emit_def Let_def split: option.splits)

lemma on_exit_no_pending: "pendingQuery (on_exit code signal c) = None"
  by (simp add: on_exit_def emit_def Let_def split: option.splits)

lemma run_queries_dead:
  assumes "\<not> isRunning c" and "pendingQuery c = None"
  shows "run parse validate (map Query prompts) c = c"
  using assms by (induction prompts) (simp_all add: run_def query_dead)

subsection \<open>The sample lines\<close>

lemma decode_line_init: "decode_event sample_parse sample_event line_init = Some event_init"
  by (simp add: decode_event_def sample_parse_def sample_event_def line_init_def trim_def
      js_whitespace_def)

lemma decode_line_hel:
  "decode_event sample_parse sample_event line_hel = Some (event_text ''hel'')"
  by (simp add: decode_event_def sample_parse_def sample_event_def line_hel_def line_init_def
      trim_def js_whitespace_def)

lemma decode_line_lo:
  "decode_event sample_parse sample_event line_lo = Some (event_text ''lo'')"
  by (simp add: decode_event_def sample_parse_def sample_event_def line_lo_def line_hel_def
      line_init_def trim_def js_whitespace_def)

lemma decode_line_result:
  "decode_event sample_parse sample_event line_result = Some (event_result (Some ''S9''))"
  by (simp add: decode_event_def sample_parse_def sample_event_def line_result_def line_lo_def
      line_hel_def line_init_def trim_def js_whitespace_def)

lemma decode_line_result_bare:
  "decode_event sample_parse sample_event line_result_bare = Some (event_result None)"
  by (simp add: decode_event_def sample_parse_def sample_event_def line_result_bare_def
      line_result_def line_lo_def line_hel_def line_init_def trim_def js_whitespace_def)

lemma sample_channel_eq:
  "sample_channel =
     \<lparr>process = Some \<lparr>exitCode = None, has_stdin = True\<rparr>, readline_open = True,
      ch_sessionId = Some ''S1'', pendingQuery = None,
      effects = [Emit (MessageEv event_init)]\<rparr>"
  by (simp add: sample_channel_def handleLine_idle [OF decode_line_init] start_def
      new_claude_def event_init_def)

lemma sample_busy_eq:
  "sample_busy =
     sample_channel\<lparr>pendingQuery := Some \<lparr>pq_messages = [], pq_text = []\<rparr>,
                    effects := effects sample_channel @ [StdinWrite ''question'']\<rparr>"
  by (simp add: sample_busy_def sample_channel_eq query_def writeMessage_def isRunning_def)

subsection \<open>A query on a channel that is not running\<close>

text \<open>
  C9. A query on a channel whose process is not running, with no query pending, is
  rejected with the not-running error; the pending slot is empty after the rejection and
  the channel is in the state it was in, so that a later query is rejected with the same
  error and not with the error of a query in progress.
\<close>

theorem query_when_not_running:
  assumes "\<not> isRunning c" and "pendingQuery c = None"
  shows "query prompt c = (Rejected NotRunning, c) \<and>
         pendingQuery (snd (query prompt c)) = None \<and>
         query later (snd (query prompt c)) = (Rejected NotRunning, c)"
  using assms by (simp add: query_dead)

theorem query_when_not_running_witness:
  "\<not> isRunning new_claude \<and> pendingQuery new_claude = None \<and>
   query ''hi'' new_claude = (Rejected NotRunning, new_claude) \<and>
   pendingQuery (snd (query ''hi'' new_claude)) = None \<and>
   query ''again'' (snd (query ''hi'' new_claude)) = (Rejected NotRunning, new_claude)"
proof -
  have a: "\<not> isRunning new_claude" by (simp add: isRunning_def new_claude_def)
  have b: "pendingQuery new_claude = None" by (simp add: new_claude_def)
  show ?thesis
    using a b query_when_not_running [OF a b, of "''hi''" "''again''"] by blast
qed

subsection \<open>The process exits\<close>

text \<open>
  C6. When the process exits while a query is pending, the promise of that query is
  rejected with an error that carries the exit code, and the pending slot is cleared.
  Every query after the exit is rejected with the not-running error and leaves the
  channel as it is: its effects gain no write to the input of the process.
\<close>

theorem exit_rejects_pending_query:
  assumes "pendingQuery c = Some pq"
  shows "effects (on_exit code signal c) =
           effects c @ [Reject (ProcessExited code), Emit (ExitEv code signal)] \<and>
         pendingQuery (on_exit code signal c) = None \<and>
         query prompt (on_exit code signal c) = (Rejected NotRunning, on_exit code signal c) \<and>
         run parse validate (map Query prompts) (on_exit code signal c) = on_exit code signal c"
proof -
  have "effects (on_exit code signal c) =
           effects c @ [Reject (ProcessExited code), Emit (ExitEv code signal)]"
    using assms by (simp add: on_exit_def emit_def)
  then show ?thesis
    by (simp add: on_exit_no_pending on_exit_not_running query_dead run_queries_dead)
qed

theorem exit_rejects_pending_query_witness:
  "pendingQuery sample_busy = Some \<lparr>pq_messages = [], pq_text = []\<rparr> \<and>
   effects (on_exit (Some 1) None sample_busy) =
     effects sample_busy @ [Reject (ProcessExited (Some 1)), Emit (ExitEv (Some 1) None)] \<and>
   pendingQuery (on_exit (Some 1) None sample_busy) = None \<and>
   query ''again'' (on_exit (Some 1) None sample_busy) =
     (Rejected NotRunning, on_exit (Some 1) None sample_busy) \<and>
   run sample_parse sample_event (map Query [''again'', ''and again''])
     (on_exit (Some 1) None sample_busy) = on_exit (Some 1) None sample_busy"
proof -
  have a: "pendingQuery sample_busy = Some \<lparr>pq_messages = [], pq_text = []\<rparr>"
    by (simp add: sample_busy_eq)
  show ?thesis
    using a exit_rejects_pending_query [OF a, of "Some 1" None "''again''" sample_parse
        sample_event "[''again'', ''and again'']"]
    by blast
qed

subsection \<open>A second query while one is pending\<close>

text \<open>
  C5. On a channel with a query pending, a second call of \<open>query\<close> is rejected with the
  error of a query in progress and changes nothing: the pending request is the one it
  was (the slot holds one request and the second is not queued). When the terminal event
  arrives afterwards, the first request is resolved as it would have been: with the events
  it had collected followed by the terminal one, and with its text.
\<close>
theorem second_query_rejected:
  assumes "pendingQuery c = Some pq"
    and "decode_event parse validate line = Some m" and "msg_type m = ''result''"
  shows "query prompt c = (Rejected QueryInProgress, c) \<and>
         pendingQuery (snd (query prompt c)) = Some pq \<and>
         handleLine parse validate line (snd (query prompt c)) =
           c\<lparr>ch_sessionId := session_id m,
             effects := effects c @
               [Emit (MessageEv m),
                Resolve \<lparr>resp_sessionId = (case session_id m of None \<Rightarrow> [] | Some s \<Rightarrow> s),
                         resp_messages = pq_messages pq @ [m], resp_text = pq_text pq,
                         resp_result = Some m\<rparr>,
                Emit (ResponseEv
                        \<lparr>resp_sessionId = (case session_id m of None \<Rightarrow> [] | Some s \<Rightarrow> s),
                         resp_messages = pq_messages pq @ [m], resp_text = pq_text pq,
                         resp_result = Some m\<rparr>)],
             pendingQuery := None\<rparr>"
  using assms by (simp add: query_busy handleLine_result)

theorem second_query_rejected_witness:
  "pendingQuery sample_busy = Some \<lparr>pq_messages = [], pq_text = []\<rparr> \<and>
   decode_event sample_parse sample_event line_result = Some (event_result (Some ''S9'')) \<and>
   msg_type (event_result (Some ''S9'')) = ''result'' \<and>
   query ''another'' sample_busy = (Rejected QueryInProgress, sample_busy) \<and>
   pendingQuery (handleLine sample_parse sample_event line_result
      (snd (query ''another'' sample_busy))) = None \<and>
   effects (handleLine sample_parse sample_event line_result
      (snd (query ''another'' sample_busy))) =
     effects sample_busy @
       [Emit (MessageEv (event_result (Some ''S9''))),
        Resolve \<lparr>resp_sessionId = ''S9'', resp_messages = [event_result (Some ''S9'')],
                 resp_text = [], resp_result = Some (event_result (Some ''S9''))\<rparr>,
        Emit (ResponseEv \<lparr>resp_sessionId = ''S9'', resp_messages = [event_result (Some ''S9'')],
                 resp_text = [], resp_result = Some (event_result (Some ''S9''))\<rparr>)]"
proof -
  have a: "pendingQuery sample_busy = Some \<lparr>pq_messages = [], pq_text = []\<rparr>"
    by (simp add: sample_busy_eq)
  have b: "msg_type (event_result (Some ''S9'')) = ''result''"
    by (simp add: event_result_def)
  have c: "session_id (event_result (Some ''S9'')) = Some ''S9''"
    by (simp add: event_result_def)
  note t = second_query_rejected [OF a decode_line_result b, of "''another''"]
  from t have q: "query ''another'' sample_busy = (Rejected QueryInProgress, sample_busy)"
    by blast
  from t have h: "handleLine sample_parse sample_event line_result
      (snd (query ''another'' sample_busy)) =
    sample_busy\<lparr>ch_sessionId := session_id (event_result (Some ''S9'')),
      effects := effects sample_busy @
        [Emit (MessageEv (event_result (Some ''S9''))),
         Resolve \<lparr>resp_sessionId =
                    (case session_id (event_result (Some ''S9'')) of None \<Rightarrow> [] | Some s \<Rightarrow> s),
                  resp_messages = pq_messages \<lparr>pq_messages = [], pq_text = []\<rparr> @
                    [event_result (Some ''S9'')],
                  resp_text = pq_text \<lparr>pq_messages = [], pq_text = []\<rparr>,
                  resp_result = Some (event_result (Some ''S9''))\<rparr>,
         Emit (ResponseEv
                 \<lparr>resp_sessionId =
                    (case session_id (event_result (Some ''S9'')) of None \<Rightarrow> [] | Some s \<Rightarrow> s),
                  resp_messages = pq_messages \<lparr>pq_messages = [], pq_text = []\<rparr> @
                    [event_result (Some ''S9'')],
                  resp_text = pq_text \<lparr>pq_messages = [], pq_text = []\<rparr>,
                  resp_result = Some (event_result (Some ''S9''))\<rparr>)],
      pendingQuery := None\<rparr>"
    by blast
  show ?thesis
    unfolding h using a b q by (simp add: decode_line_result c)
qed

subsection \<open>The session identifier of a channel\<close>

text \<open>
  C1, as amended. Every valid event sets the session identifier of the channel to the
  identifier the event carries, and to the unset state when the event carries none; a
  line that is not a valid event leaves it as it is.
\<close>
theorem handleLine_sessionId:
  "ch_sessionId (handleLine parse validate line c) =
     (case decode_event parse validate line of
        None \<Rightarrow> ch_sessionId c
      | Some m \<Rightarrow> session_id m)"
proof (cases "decode_event parse validate line")
  case None
  then show ?thesis by (simp add: handleLine_ignored)
next
  case (Some m)
  show ?thesis
  proof (cases "pendingQuery c")
    case None
    with Some show ?thesis by (simp add: handleLine_idle)
  next
    case (Some pq)
    with \<open>decode_event parse validate line = Some m\<close> show ?thesis
      by (cases "msg_type m = ''result''") (simp_all add: handleLine_result handleLine_collect)
  qed
qed

theorem handleLine_sessionId_witness:
  "ch_sessionId (handleLine sample_parse sample_event line_result sample_channel) = Some ''S9'' \<and>
   ch_sessionId (handleLine sample_parse sample_event ''not json'' sample_channel) = Some ''S1''"
proof -
  have a: "decode_event sample_parse sample_event ''not json'' = None"
    by (simp add: decode_event_def sample_parse_def trim_def js_whitespace_def)
  show ?thesis
    using handleLine_sessionId [of sample_parse sample_event line_result sample_channel]
      handleLine_sessionId [of sample_parse sample_event "''not json''" sample_channel]
    by (simp add: decode_line_result a event_result_def sample_channel_eq)
qed

text \<open>
  C1 as stated does not hold: \<open>handleLine\<close> assigns \<open>message.session_id ?? null\<close> without
  a guard. The sample channel has seen the session identifier \<open>S1\<close>; the valid assistant
  event that follows carries none, and the identifier of the channel is unset after it.
\<close>

theorem sessionId_latch_counterexample:
  "ch_sessionId sample_channel = Some ''S1'' \<and>
   decode_event sample_parse sample_event line_hel = Some (event_text ''hel'') \<and>
   session_id (event_text ''hel'') = None \<and>
   ch_sessionId (handleLine sample_parse sample_event line_hel sample_channel) = None"
  by (simp add: decode_line_hel handleLine_idle [OF decode_line_hel] sample_channel_eq
      event_text_def)

subsection \<open>The text of a response\<close>

lemma accumulate_one_fragment:
  assumes "msg_type m = ''assistant''" and "msg_message m = Some p"
    and "payload_content p = Some (ContentBlocks [\<lparr>block_type = ''text'', block_text = Some t\<rparr>])"
  shows "accumulate_text m text = text @ t"
  using assms by (simp add: accumulate_text_def)

lemma run_Cons: "run parse validate (a # as) c = run parse validate as (step parse validate c a)"
  by (simp add: run_def)

lemma run_Nil: "run parse validate [] c = c"
  by (simp add: run_def)

lemma query_Pending:
  assumes "query prompt c0 = (Pending, c)"
  shows "c = c0\<lparr>pendingQuery := Some \<lparr>pq_messages = [], pq_text = []\<rparr>,
                 effects := effects c0 @ [StdinWrite prompt]\<rparr>"
  using assms
  by (auto simp: query_def writeMessage_def Let_def split: option.splits if_splits)

text \<open>
  C2. A query has been accepted and is pending. The channel then receives a valid
  assistant event whose content is the text fragment \<open>hel\<close>, one whose content is the
  fragment \<open>lo\<close>, and a valid event of type \<open>result\<close> with the session identifier \<open>S9\<close>.
  The pending query is resolved with a response whose text is \<open>hello\<close>, whose session
  identifier is \<open>S9\<close> and whose events are the three in the order of arrival, and no
  query is pending afterwards.
\<close>
theorem hello_scenario:
  assumes pending: "query prompt c0 = (Pending, c)"
    and e1: "decode_event parse validate l1 = Some m1" "msg_type m1 = ''assistant''"
      "msg_message m1 = Some p1"
      "payload_content p1 = Some (ContentBlocks [\<lparr>block_type = ''text'', block_text = Some ''hel''\<rparr>])"
    and e2: "decode_event parse validate l2 = Some m2" "msg_type m2 = ''assistant''"
      "msg_message m2 = Some p2"
      "payload_content p2 = Some (ContentBlocks [\<lparr>block_type = ''text'', block_text = Some ''lo''\<rparr>])"
    and e3: "decode_event parse validate l3 = Some m3" "msg_type m3 = ''result''"
      "session_id m3 = Some ''S9''"
  shows "pendingQuery (run parse validate [Line l1, Line l2, Line l3] c) = None \<and>
         effects (run parse validate [Line l1, Line l2, Line l3] c) =
           effects c @
             [Emit (MessageEv m1), Emit (MessageEv m2), Emit (MessageEv m3),
              Resolve \<lparr>resp_sessionId = ''S9'', resp_messages = [m1, m2, m3],
                       resp_text = ''hello'', resp_result = Some m3\<rparr>,
              Emit (ResponseEv \<lparr>resp_sessionId = ''S9'', resp_messages = [m1, m2, m3],
                       resp_text = ''hello'', resp_result = Some m3\<rparr>)]"
proof -
  have c: "pendingQuery c = Some \<lparr>pq_messages = [], pq_text = []\<rparr>"
    using query_Pending [OF pending] by simp
  have n1: "msg_type m1 \<noteq> ''result''" and n2: "msg_type m2 \<noteq> ''result''"
    using e1(2) e2(2) by simp_all
  define c1 where "c1 = handleLine parse validate l1 c"
  have c1: "c1 = c\<lparr>ch_sessionId := session_id m1, effects := effects c @ [Emit (MessageEv m1)],
       pendingQuery := Some \<lparr>pq_messages = [m1], pq_text = ''hel''\<rparr>\<rparr>"
    unfolding c1_def handleLine_collect [OF e1(1) c n1]
    by (simp add: accumulate_one_fragment [OF e1(2,3,4)])
  define c2 where "c2 = handleLine parse validate l2 c1"
  have p1: "pendingQuery c1 = Some \<lparr>pq_messages = [m1], pq_text = ''hel''\<rparr>"
    by (simp add: c1)
  have c2: "c2 = c\<lparr>ch_sessionId := session_id m2,
       effects := effects c @ [Emit (MessageEv m1), Emit (MessageEv m2)],
       pendingQuery := Some \<lparr>pq_messages = [m1, m2], pq_text = ''hello''\<rparr>\<rparr>"
    unfolding c2_def handleLine_collect [OF e2(1) p1 n2]
    by (simp add: accumulate_one_fragment [OF e2(2,3,4)] c1)
  have p2: "pendingQuery c2 = Some \<lparr>pq_messages = [m1, m2], pq_text = ''hello''\<rparr>"
    by (simp add: c2)
  have "run parse validate [Line l1, Line l2, Line l3] c = handleLine parse validate l3 c2"
    by (simp add: run_def c1_def c2_def)
  then show ?thesis
    unfolding handleLine_result [OF e3(1) p2 e3(2)]
    by (simp add: e3(3) c2)
qed

theorem hello_scenario_witness:
  "query ''question'' sample_channel = (Pending, sample_busy) \<and>
   pendingQuery (run sample_parse sample_event [Line line_hel, Line line_lo, Line line_result]
      sample_busy) = None \<and>
   effects (run sample_parse sample_event [Line line_hel, Line line_lo, Line line_result]
      sample_busy) =
     effects sample_busy @
       [Emit (MessageEv (event_text ''hel'')), Emit (MessageEv (event_text ''lo'')),
        Emit (MessageEv (event_result (Some ''S9''))),
        Resolve \<lparr>resp_sessionId = ''S9'',
                 resp_messages = [event_text ''hel'', event_text ''lo'', event_result (Some ''S9'')],
                 resp_text = ''hello'', resp_result = Some (event_result (Some ''S9''))\<rparr>,
        Emit (ResponseEv \<lparr>resp_sessionId = ''S9'',
                 resp_messages = [event_text ''hel'', event_text ''lo'', event_result (Some ''S9'')],
                 resp_text = ''hello'', resp_result = Some (event_result (Some ''S9''))\<rparr>)]"
proof -
  have q: "query ''question'' sample_channel = (Pending, sample_busy)"
    by (simp add: sample_busy_eq sample_channel_eq query_def writeMessage_def isRunning_def)
  show ?thesis
    using q hello_scenario [OF q decode_line_hel _ _ _ decode_line_lo _ _ _ decode_line_result,
        of "\<lparr>payload_role = None, payload_content =
               Some (ContentBlocks [\<lparr>block_type = ''text'', block_text = Some ''hel''\<rparr>])\<rparr>"
           "\<lparr>payload_role = None, payload_content =
               Some (ContentBlocks [\<lparr>block_type = ''text'', block_text = Some ''lo''\<rparr>])\<rparr>"]
    by (simp add: event_text_def event_result_def)
qed

subsection \<open>The session identifier of a response\<close>

lemma step_resolve:
  "\<exists>new. effects (step parse validate c a) = effects c @ new \<and>
     (\<forall>r. Resolve r \<in> set new \<longrightarrow>
        (\<exists>line m. a = Line line \<and> decode_event parse validate line = Some m \<and>
           resp_sessionId r = (case session_id m of None \<Rightarrow> [] | Some s \<Rightarrow> s)))"
proof (cases a)
  case (Line line)
  show ?thesis
  proof (cases "decode_event parse validate line")
    case None
    with Line show ?thesis by (simp add: handleLine_ignored)
  next
    case (Some m)
    note m = this
    show ?thesis
    proof (cases "pendingQuery c")
      case None
      with Line m show ?thesis by (simp add: handleLine_idle)
    next
      case (Some pq)
      with Line m show ?thesis
        by (cases "msg_type m = ''result''") (simp_all add: handleLine_result handleLine_collect)
    qed
  qed
next
  case (Query prompt)
  then show ?thesis
    by (auto simp: query_def writeMessage_def Let_def split: option.splits)
next
  case (Exit code signal)
  then show ?thesis
    by (auto simp: on_exit_def emit_def Let_def split: option.splits)
qed

lemma run_resolve:
  "\<exists>new. effects (run parse validate actions c) = effects c @ new \<and>
     (\<forall>r. Resolve r \<in> set new \<longrightarrow>
        (\<exists>line m. Line line \<in> set actions \<and> decode_event parse validate line = Some m \<and>
           resp_sessionId r = (case session_id m of None \<Rightarrow> [] | Some s \<Rightarrow> s)))"
proof (induction actions arbitrary: c)
  case Nil
  then show ?case by (simp add: run_def)
next
  case (Cons a actions)
  obtain new1 where 1: "effects (step parse validate c a) = effects c @ new1"
    and r1: "\<forall>r. Resolve r \<in> set new1 \<longrightarrow>
        (\<exists>line m. a = Line line \<and> decode_event parse validate line = Some m \<and>
           resp_sessionId r = (case session_id m of None \<Rightarrow> [] | Some s \<Rightarrow> s))"
    using step_resolve [of parse validate c a] by blast
  obtain new2 where 2: "effects (run parse validate actions (step parse validate c a)) =
      effects (step parse validate c a) @ new2"
    and r2: "\<forall>r. Resolve r \<in> set new2 \<longrightarrow>
        (\<exists>line m. Line line \<in> set actions \<and> decode_event parse validate line = Some m \<and>
           resp_sessionId r = (case session_id m of None \<Rightarrow> [] | Some s \<Rightarrow> s))"
    using Cons.IH [of "step parse validate c a"] by blast
  have "effects (run parse validate (a # actions) c) = effects c @ (new1 @ new2)"
    by (simp add: run_Cons 1 2)
  moreover have "\<forall>r. Resolve r \<in> set (new1 @ new2) \<longrightarrow>
        (\<exists>line m. Line line \<in> set (a # actions) \<and> decode_event parse validate line = Some m \<and>
           resp_sessionId r = (case session_id m of None \<Rightarrow> [] | Some s \<Rightarrow> s))"
  proof (intro allI impI)
    fix r assume "Resolve r \<in> set (new1 @ new2)"
    then consider "Resolve r \<in> set new1" | "Resolve r \<in> set new2" by auto
    then show "\<exists>line m. Line line \<in> set (a # actions) \<and>
        decode_event parse validate line = Some m \<and>
        resp_sessionId r = (case session_id m of None \<Rightarrow> [] | Some s \<Rightarrow> s)"
    proof cases
      case 1
      with r1 obtain line m where "a = Line line" "decode_event parse validate line = Some m"
        "resp_sessionId r = (case session_id m of None \<Rightarrow> [] | Some s \<Rightarrow> s)" by blast
      then show ?thesis by (intro exI [of _ line] exI [of _ m]) simp
    next
      case 2
      with r2 obtain line m where "Line line \<in> set actions"
        "decode_event parse validate line = Some m"
        "resp_sessionId r = (case session_id m of None \<Rightarrow> [] | Some s \<Rightarrow> s)" by blast
      then show ?thesis by (intro exI [of _ line] exI [of _ m]) simp
    qed
  qed
  ultimately show ?case by blast
qed

lemma sample_quiet_run:
  "effects (run sample_parse sample_event
      [Query ''question'', Line line_hel, Line line_result_bare] (start new_claude)) =
   [StdinWrite ''question'', Emit (MessageEv (event_text ''hel'')),
    Emit (MessageEv (event_result None)),
    Resolve \<lparr>resp_sessionId = [], resp_messages = [event_text ''hel'', event_result None],
             resp_text = ''hel'', resp_result = Some (event_result None)\<rparr>,
    Emit (ResponseEv \<lparr>resp_sessionId = [],
             resp_messages = [event_text ''hel'', event_result None],
             resp_text = ''hel'', resp_result = Some (event_result None)\<rparr>)]"
proof -
  define c1 where "c1 = snd (query ''question'' (start new_claude))"
  have c1: "c1 = (start new_claude)\<lparr>pendingQuery := Some \<lparr>pq_messages = [], pq_text = []\<rparr>,
      effects := [StdinWrite ''question'']\<rparr>"
    by (simp add: c1_def query_def writeMessage_def isRunning_def start_def new_claude_def)
  have p1: "pendingQuery c1 = Some \<lparr>pq_messages = [], pq_text = []\<rparr>"
    by (simp add: c1)
  have t: "msg_type (event_text ''hel'') \<noteq> ''result''"
    by (simp add: event_text_def)
  define c2 where "c2 = handleLine sample_parse sample_event line_hel c1"
  have c2: "c2 = c1\<lparr>ch_sessionId := None,
      effects := [StdinWrite ''question'', Emit (MessageEv (event_text ''hel''))],
      pendingQuery := Some \<lparr>pq_messages = [event_text ''hel''], pq_text = ''hel''\<rparr>\<rparr>"
    unfolding c2_def handleLine_collect [OF decode_line_hel p1 t]
    by (simp add: c1) (simp add: event_text_def accumulate_text_def)
  have p2: "pendingQuery c2 = Some \<lparr>pq_messages = [event_text ''hel''], pq_text = ''hel''\<rparr>"
    by (simp add: c2)
  have r: "msg_type (event_result None) = ''result''"
    by (simp add: event_result_def)
  have "run sample_parse sample_event
      [Query ''question'', Line line_hel, Line line_result_bare] (start new_claude) =
    handleLine sample_parse sample_event line_result_bare c2"
    by (simp add: run_def c1_def c2_def)
  then show ?thesis
    unfolding handleLine_result [OF decode_line_result_bare p2 r]
    by (simp add: c2) (simp add: event_result_def)
qed

text \<open>
  C10. In a run of a channel from its start in which no valid event carries a session
  identifier, every response a query is resolved with has the empty string as its
  session identifier. (The field is a string in every response: \<open>handleLine\<close> puts the
  empty string where the identifier of the channel is unset.)
\<close>

theorem resolved_without_session_id:
  assumes "\<forall>line m. Line line \<in> set actions \<longrightarrow> decode_event parse validate line = Some m
             \<longrightarrow> session_id m = None"
    and "Resolve r \<in> set (effects (run parse validate actions (start new_claude)))"
  shows "resp_sessionId r = []"
proof -
  have "effects (start new_claude) = []" by (simp add: start_def new_claude_def)
  with run_resolve [of parse validate actions "start new_claude"] assms(2)
  obtain line m where "Line line \<in> set actions" "decode_event parse validate line = Some m"
    "resp_sessionId r = (case session_id m of None \<Rightarrow> [] | Some s \<Rightarrow> s)"
    by auto
  with assms(1) show ?thesis by auto
qed

theorem resolved_without_session_id_witness:
  "Resolve \<lparr>resp_sessionId = [], resp_messages = [event_text ''hel'', event_result None],
            resp_text = ''hel'', resp_result = Some (event_result None)\<rparr>
     \<in> set (effects (run sample_parse sample_event
          [Query ''question'', Line line_hel, Line line_result_bare] (start new_claude))) \<and>
   resp_sessionId \<lparr>resp_sessionId = [], resp_messages = [event_text ''hel'', event_result None],
            resp_text = ''hel'', resp_result = Some (event_result None)\<rparr> = []"
proof -
  have a: "\<forall>line m. Line line \<in> set [Query ''question'', Line line_hel, Line line_result_bare]
      \<longrightarrow> decode_event sample_parse sample_event line = Some m \<longrightarrow> session_id m = None"
    by (auto simp: decode_line_hel decode_line_result_bare event_text_def event_result_def)
  have b: "Resolve \<lparr>resp_sessionId = [], resp_messages = [event_text ''hel'', event_result None],
            resp_text = ''hel'', resp_result = Some (event_result None)\<rparr>
     \<in> set (effects (run sample_parse sample_event
          [Query ''question'', Line line_hel, Line line_result_bare] (start new_claude)))"
    by (simp add: sample_quiet_run)
  show ?thesis
    using b resolved_without_session_id [OF a b] by blast
qed

section \<open>Properties of the log reader\<close>

subsection \<open>Lines of a file\<close>

lemma readline_lines_append:
  "whole_lines a \<Longrightarrow> readline_lines (a @ b) = readline_lines a @ readline_lines b"
proof (induction a rule: readline_lines.induct)
  case 1
  then show ?case by simp
next
  case (2 c cs)
  show ?case
  proof (cases "c = LF")
    case True
    with 2 show ?thesis by (cases cs) (auto simp: whole_lines_def)
  next
    case nlf: False
    show ?thesis
    proof (cases "c = CR")
      case True
      with 2 nlf show ?thesis
        by (cases cs) (auto simp: whole_lines_def split: if_splits)
    next
      case False
      with 2 nlf have "cs \<noteq> []" by (auto simp: whole_lines_def)
      with 2 nlf False have w: "whole_lines cs" by (auto simp: whole_lines_def)
      with 2 nlf False have ih: "readline_lines (cs @ b) = readline_lines cs @ readline_lines b"
        by simp
      from \<open>cs \<noteq> []\<close> w have "readline_lines cs \<noteq> []"
        by (cases cs) (auto split: list.splits)
      with nlf False ih show ?thesis by (cases "readline_lines cs") auto
    qed
  qed
qed

lemma readline_lines_line:
  "LF \<notin> set l \<Longrightarrow> CR \<notin> set l \<Longrightarrow> readline_lines (l @ LF # rest) = l # readline_lines rest"
  by (induction l) auto

lemma readline_lines_unlines:
  "\<forall>l\<in>set ls. LF \<notin> set l \<and> CR \<notin> set l \<Longrightarrow> readline_lines (unlines ls) = ls"
  by (induction ls) (simp_all add: unlines_def readline_lines_line)

lemma whole_lines_unlines: "whole_lines (unlines ls)"
  by (induction ls rule: rev_induct) (simp_all add: unlines_def whole_lines_def)

lemma whole_lines_append: "whole_lines a \<Longrightarrow> whole_lines b \<Longrightarrow> whole_lines (a @ b)"
  by (cases "b = []") (auto simp: whole_lines_def)

lemma join_Cons: "join sep (x # xs) = (if xs = [] then x else x @ sep @ join sep xs)"
  by (cases xs) simp_all

lemma join_terminated: "xs \<noteq> [] \<Longrightarrow> join [LF] xs @ [LF] = unlines xs"
  by (induction xs) (auto simp: join_Cons unlines_def)

lemma join_empty: "join sep xs = [] \<Longrightarrow> \<forall>x\<in>set xs. x \<noteq> [] \<Longrightarrow> xs = []"
  by (cases xs) (auto simp: join_Cons split: if_splits)

lemma join_unlines:
  assumes "\<forall>x\<in>set xs. x \<noteq> []"
  shows "(if join [LF] xs \<noteq> [] then join [LF] xs @ [LF] else []) = unlines xs"
proof (cases "xs = []")
  case True
  then show ?thesis by (simp add: unlines_def)
next
  case False
  with assms have "join [LF] xs \<noteq> []" using join_empty by blast
  with False show ?thesis by (simp add: join_terminated)
qed

subsection \<open>What a pass over the lines leaves\<close>

lemma load_lines_append:
  "load_lines parse validate (xs @ ys) c =
     load_lines parse validate ys (load_lines parse validate xs c)"
  by (induction xs arbitrary: c) (simp_all split: sum.splits)

lemma processObject_messages:
  "messages (processObject validate obj c) =
     messages c @ (case validate obj of None \<Rightarrow> [] | Some m \<Rightarrow> [m])"
  by (simp add: processObject_def latch_session_def Let_def split: option.splits message.splits)

lemma processObject_flags:
  "emitNewMessages (processObject validate obj c) = emitNewMessages c"
  "byteOffset (processObject validate obj c) = byteOffset c"
  by (simp_all add: processObject_def latch_session_def Let_def split: option.splits message.splits)

lemma processObject_silent:
  "\<not> emitNewMessages c \<Longrightarrow> emitted (processObject validate obj c) = emitted c"
  by (simp add: processObject_def latch_session_def Let_def split: option.splits message.splits)

lemma load_lines_flags:
  "emitNewMessages (load_lines parse validate ls c) = emitNewMessages c"
  "byteOffset (load_lines parse validate ls c) = byteOffset c"
  by (induction ls arbitrary: c) (simp_all add: processObject_flags split: sum.splits)

lemma records_of_Cons:
  "records_of parse validate (l # ls) =
     (case decode_record parse validate l of None \<Rightarrow> [] | Some m \<Rightarrow> [m]) @
     records_of parse validate ls"
  by (simp add: records_of_def List.map_filter_simps split: option.splits)

lemma records_of_Nil: "records_of parse validate [] = []"
  by (simp add: records_of_def List.map_filter_simps)

lemma records_of_append:
  "records_of parse validate (xs @ ys) = records_of parse validate xs @ records_of parse validate ys"
  by (simp add: records_of_def List.map_filter_def)

lemma parse_errors_append:
  "parse_errors parse (xs @ ys) = parse_errors parse xs @ parse_errors parse ys"
  by (simp add: parse_errors_def List.map_filter_def)

lemma parse_errors_bad: "parse bad = Inl e \<Longrightarrow> parse_errors parse [bad] = [ParseError bad e]"
  by (simp add: parse_errors_def List.map_filter_def syntax_error_def)

lemma records_of_bad: "parse bad = Inl e \<Longrightarrow> records_of parse validate [bad] = []"
  by (simp add: records_of_def List.map_filter_def decode_record_def)

lemma load_lines_messages:
  "messages (load_lines parse validate ls c) = messages c @ records_of parse validate ls"
proof (induction ls arbitrary: c)
  case Nil
  then show ?case by (simp add: records_of_Nil)
next
  case (Cons l ls)
  then show ?case
    by (simp add: records_of_Cons decode_record_def processObject_messages
        split: sum.splits option.splits)
qed

lemma load_lines_emitted:
  "\<not> emitNewMessages c \<Longrightarrow>
     emitted (load_lines parse validate ls c) = emitted c @ parse_errors parse ls"
proof (induction ls arbitrary: c)
  case Nil
  then show ?case by (simp add: parse_errors_def List.map_filter_simps)
next
  case (Cons l ls)
  then show ?case
    by (simp add: parse_errors_def List.map_filter_simps syntax_error_def processObject_silent
        processObject_flags split: sum.splits)
qed

lemma create_messages:
  "messages (create parse validate file) = records_of parse validate (readline_lines file)"
  by (simp add: create_def load_def jsonl_load_def Let_def load_lines_messages new_conversation_def)

lemma create_emitted:
  "emitted (create parse validate file) = parse_errors parse (readline_lines file)"
  by (simp add: create_def load_def jsonl_load_def Let_def load_lines_emitted new_conversation_def)

lemma loadNewMessages_messages:
  "messages (loadNewMessages parse validate file c) =
     (if length file \<le> byteOffset c then messages c
      else messages c @ records_of parse validate (readline_lines (drop (byteOffset c) file)))"
  by (simp add: loadNewMessages_def Let_def getFileSize_def jsonl_load_def load_lines_messages)

lemma loadNewMessages_byteOffset:
  "byteOffset (loadNewMessages parse validate file c) = max (byteOffset c) (length file)"
  by (simp add: loadNewMessages_def Let_def getFileSize_def)

lemma readline_lines_rest:
  "l \<noteq> [] \<Longrightarrow> LF \<notin> set l \<Longrightarrow> CR \<notin> set l \<Longrightarrow> readline_lines l = [l]"
proof (induction l)
  case Nil
  then show ?case by simp
next
  case (Cons c cs)
  then show ?case by (cases cs) auto
qed

subsection \<open>The sample log\<close>

lemma sample_lines_plain:
  "LF \<notin> set line_user_1" "CR \<notin> set line_user_1"
  "LF \<notin> set line_user_2" "CR \<notin> set line_user_2"
  "LF \<notin> set line_snapshot" "CR \<notin> set line_snapshot"
  by (simp_all add: line_user_1_def line_user_2_def line_snapshot_def)

lemma sample_lines_differ:
  "line_user_1 \<noteq> line_user_2" "line_user_1 \<noteq> line_snapshot" "line_user_2 \<noteq> line_snapshot"
  by (simp_all add: line_user_1_def line_user_2_def line_snapshot_def)

lemma sample_parse_lines:
  "sample_parse line_user_1 = Inr line_user_1"
  "sample_parse line_user_2 = Inr line_user_2"
  "sample_parse line_snapshot = Inr line_snapshot"
  "sample_parse [] = Inl ''SyntaxError''"
  by (simp_all add: sample_parse_def line_user_1_def line_user_2_def line_snapshot_def)

lemma decode_sample_lines:
  "decode_record sample_parse sample_record line_user_1 = Some record_user_1"
  "decode_record sample_parse sample_record line_user_2 = Some record_user_2"
  "decode_record sample_parse sample_record line_snapshot = Some record_snapshot"
  "decode_record sample_parse sample_record [] = None"
  using sample_lines_differ
  by (simp_all add: decode_record_def sample_parse_lines sample_record_def)

lemma sample_records_differ:
  "record_user_1 \<noteq> record_user_2" "record_user_1 \<noteq> record_snapshot"
  "record_user_2 \<noteq> record_snapshot"
  by (simp_all add: record_user_1_def record_user_2_def record_snapshot_def)

lemma sample_stringify_records:
  "sample_stringify record_user_1 = line_user_1"
  "sample_stringify record_user_2 = line_user_2"
  "sample_stringify record_snapshot = line_snapshot"
  using sample_records_differ by (simp_all add: sample_stringify_def)

lemma line_user_1_split: "line_user_1_head @ line_user_1_tail = line_user_1"
  by (simp add: line_user_1_head_def line_user_1_tail_def line_user_1_def)

lemma head_facts:
  "length line_user_1_head = 60" "readline_lines line_user_1_head = [line_user_1_head]"
  "sample_parse line_user_1_head = Inl ''SyntaxError''"
proof -
  show "length line_user_1_head = 60" by (simp add: line_user_1_head_def)
  have "line_user_1_head \<noteq> []" "LF \<notin> set line_user_1_head" "CR \<notin> set line_user_1_head"
    by (simp_all add: line_user_1_head_def)
  then show "readline_lines line_user_1_head = [line_user_1_head]"
    by (rule readline_lines_rest)
  show "sample_parse line_user_1_head = Inl ''SyntaxError''"
    by (simp add: line_user_1_head_def sample_parse_def)
qed

lemma tail_facts:
  "readline_lines (line_user_1_tail @ [LF]) = [line_user_1_tail]"
  "sample_parse line_user_1_tail = Inl ''SyntaxError''"
proof -
  have "LF \<notin> set line_user_1_tail" "CR \<notin> set line_user_1_tail"
    by (simp_all add: line_user_1_tail_def)
  then show "readline_lines (line_user_1_tail @ [LF]) = [line_user_1_tail]"
    using readline_lines_line [of line_user_1_tail "[]"] by simp
  show "sample_parse line_user_1_tail = Inl ''SyntaxError''"
    by (simp add: line_user_1_tail_def sample_parse_def)
qed

subsection \<open>Lines that are not valid JSON\<close>

text \<open>
  C4, as amended. A full parse handles each line on its own. A line that is not valid
  JSON, an empty or blank line included, gives exactly one \<open>parseError\<close> signal with the
  raw line and the error, gives no record, and the parse goes on: wherever such a line
  stands among other lines, the records are those of the lines before it followed by
  those of the lines after it, as if the line were not there, and the signals are those
  of the lines before it, the one for the line, and those of the lines after it.
\<close>

theorem bad_line_reported_once:
  assumes "parse bad = Inl e"
    and "\<forall>l\<in>set (before @ bad # after). LF \<notin> set l \<and> CR \<notin> set l"
  shows "messages (create parse validate (unlines (before @ bad # after))) =
           messages (create parse validate (unlines before)) @
           messages (create parse validate (unlines after)) \<and>
         messages (create parse validate (unlines (before @ after))) =
           messages (create parse validate (unlines before)) @
           messages (create parse validate (unlines after)) \<and>
         emitted (create parse validate (unlines (before @ bad # after))) =
           emitted (create parse validate (unlines before)) @ [ParseError bad e] @
           emitted (create parse validate (unlines after)) \<and>
         messages (create parse validate (unlines (before @ bad # after))) =
           List.map_filter (decode_record parse validate) (before @ bad # after)"
proof -
  have l1: "readline_lines (unlines (before @ bad # after)) = before @ bad # after"
    using assms(2) by (intro readline_lines_unlines) simp
  have l2: "readline_lines (unlines (before @ after)) = before @ after"
    using assms(2) by (intro readline_lines_unlines) simp
  have l3: "readline_lines (unlines before) = before"
    using assms(2) by (intro readline_lines_unlines) simp
  have l4: "readline_lines (unlines after) = after"
    using assms(2) by (intro readline_lines_unlines) simp
  have split: "before @ bad # after = before @ [bad] @ after" by simp
  have rb: "records_of parse validate [bad] = []"
    using assms(1) by (simp add: records_of_bad)
  have pb: "parse_errors parse [bad] = [ParseError bad e]"
    using assms(1) by (simp add: parse_errors_bad)
  have "messages (create parse validate (unlines (before @ bad # after))) =
      List.map_filter (decode_record parse validate) (before @ bad # after)"
    by (simp add: create_messages l1 records_of_def)
  moreover have "messages (create parse validate (unlines (before @ bad # after))) =
      messages (create parse validate (unlines before)) @
      messages (create parse validate (unlines after))"
    unfolding create_messages l1 l3 l4
    unfolding split records_of_append rb by simp
  moreover have "messages (create parse validate (unlines (before @ after))) =
      messages (create parse validate (unlines before)) @
      messages (create parse validate (unlines after))"
    unfolding create_messages l2 l3 l4 records_of_append by simp
  moreover have "emitted (create parse validate (unlines (before @ bad # after))) =
      emitted (create parse validate (unlines before)) @ [ParseError bad e] @
      emitted (create parse validate (unlines after))"
    unfolding create_emitted l1 l3 l4
    unfolding split parse_errors_append pb by simp
  ultimately show ?thesis by blast
qed

theorem bad_line_reported_once_witness:
  "sample_parse [] = Inl ''SyntaxError'' \<and>
   messages (create sample_parse sample_record (unlines ([line_user_1] @ [] # [line_user_2]))) =
     messages (create sample_parse sample_record (unlines [line_user_1])) @
     messages (create sample_parse sample_record (unlines [line_user_2])) \<and>
   emitted (create sample_parse sample_record (unlines ([line_user_1] @ [] # [line_user_2]))) =
     emitted (create sample_parse sample_record (unlines [line_user_1])) @
     [ParseError [] ''SyntaxError''] @
     emitted (create sample_parse sample_record (unlines [line_user_2]))"
proof -
  have a: "sample_parse [] = Inl ''SyntaxError''" by (simp add: sample_parse_lines)
  have b: "\<forall>l\<in>set ([line_user_1] @ [] # [line_user_2]). LF \<notin> set l \<and> CR \<notin> set l"
    by (simp add: sample_lines_plain)
  show ?thesis
    using a bad_line_reported_once [where parse = sample_parse and bad = "[]"
        and e = "''SyntaxError''" and before = "[line_user_1]" and after = "[line_user_2]"
        and validate = sample_record, OF a b]
    by blast
qed

text \<open>
  C4 as stated does not hold for the empty line: \<open>JsonlFile.load\<close> hands every line to
  \<open>JSON.parse\<close>, which throws on the empty text. A log with an empty line between two
  records gives the two records and one \<open>parseError\<close> signal whose line is empty.
\<close>

theorem blank_line_counterexample:
  "messages (create sample_parse sample_record (unlines [line_user_1, [], line_user_2])) =
     [record_user_1, record_user_2] \<and>
   emitted (create sample_parse sample_record (unlines [line_user_1, [], line_user_2])) =
     [ParseError [] ''SyntaxError'']"
proof -
  have "readline_lines (unlines [line_user_1, [], line_user_2]) = [line_user_1, [], line_user_2]"
    by (intro readline_lines_unlines) (simp add: sample_lines_plain)
  then show ?thesis
    by (simp add: create_messages create_emitted records_of_Cons records_of_Nil
        decode_sample_lines parse_errors_def List.map_filter_simps syntax_error_def
        sample_parse_lines)
qed

subsection \<open>A reader that follows a growing file\<close>

lemma processObject_view:
  assumes "view c = view c'"
  shows "view (processObject validate obj c) = view (processObject validate obj c')"
proof -
  from assms have eq: "messages c = messages c'" "conv_sessionId c = conv_sessionId c'"
    "conv_isSidechain c = conv_isSidechain c'"
    by (simp_all add: view_def)
  show ?thesis
  proof (cases "validate obj")
    case None
    then show ?thesis using assms by (simp add: processObject_def)
  next
    case (Some data)
    then show ?thesis
      by (cases data) (simp_all add: processObject_def latch_session_def Let_def view_def eq)
  qed
qed

lemma view_emitted [simp]: "view (c\<lparr>emitted := es\<rparr>) = view c"
  by (simp add: view_def)

lemma view_flag [simp]: "view (c\<lparr>emitNewMessages := b\<rparr>) = view c"
  by (simp add: view_def)

lemma view_offset [simp]: "view (c\<lparr>byteOffset := n\<rparr>) = view c"
  by (simp add: view_def)

lemma load_lines_view:
  "view c = view c' \<Longrightarrow>
     view (load_lines parse validate ls c) = view (load_lines parse validate ls c')"
proof (induction ls arbitrary: c c')
  case Nil
  then show ?case by simp
next
  case (Cons l ls)
  show ?case
  proof (cases "parse l")
    case (Inl e)
    have "view (c\<lparr>emitted := emitted c @ [ParseError l e]\<rparr>) =
        view (c'\<lparr>emitted := emitted c' @ [ParseError l e]\<rparr>)"
      using Cons.prems by simp
    from Cons.IH [OF this] Inl show ?thesis by simp
  next
    case (Inr obj)
    from Cons.IH [OF processObject_view [OF Cons.prems, of validate obj]] Inr
    show ?thesis by simp
  qed
qed

lemma view_load_lines:
  "view (load parse validate file c0) =
     view (load_lines parse validate (readline_lines file) new_conversation)"
proof -
  have "view (load parse validate file c0) =
      view (load_lines parse validate (readline_lines file)
             (c0\<lparr>messages := [], conv_sessionId := None, conv_isSidechain := None\<rparr>))"
    by (simp add: load_def jsonl_load_def Let_def)
  also have "\<dots> = view (load_lines parse validate (readline_lines file) new_conversation)"
    by (rule load_lines_view) (simp add: view_def new_conversation_def)
  finally show ?thesis .
qed

lemma view_create:
  "view (create parse validate file) =
     view (load_lines parse validate (readline_lines file) new_conversation)"
  by (simp add: create_def view_load_lines)

lemma view_load: "view (load parse validate file c0) = view (create parse validate file)"
  by (simp add: view_create view_load_lines)

lemma byteOffset_load: "byteOffset (load parse validate file c0) = length file"
  by (simp add: load_def Let_def getFileSize_def)

lemma refresh_in_step:
  assumes "in_step parse validate file c"
  shows "view (loadNewMessages parse validate file c) = view (create parse validate file)"
    and "byteOffset (loadNewMessages parse validate file c) = length file"
proof -
  let ?off = "byteOffset c"
  from assms have le: "?off \<le> length file" and w: "whole_lines (take ?off file)"
    and v: "view c = view (create parse validate (take ?off file))"
    by (simp_all add: in_step_def)
  show "byteOffset (loadNewMessages parse validate file c) = length file"
    using le by (simp add: loadNewMessages_def Let_def getFileSize_def)
  show "view (loadNewMessages parse validate file c) = view (create parse validate file)"
  proof (cases "length file \<le> ?off")
    case True
    with le have "take ?off file = file" by simp
    with True v show ?thesis by (simp add: loadNewMessages_def Let_def getFileSize_def)
  next
    case False
    have "view (loadNewMessages parse validate file c) =
        view (load_lines parse validate (readline_lines (drop ?off file))
               (c\<lparr>emitNewMessages := True\<rparr>))"
      using False by (simp add: loadNewMessages_def Let_def getFileSize_def jsonl_load_def)
    also have "\<dots> = view (load_lines parse validate (readline_lines (drop ?off file))
        (load_lines parse validate (readline_lines (take ?off file)) new_conversation))"
      by (rule load_lines_view) (simp add: v view_create)
    also have "\<dots> = view (load_lines parse validate (readline_lines file) new_conversation)"
      using readline_lines_append [OF w, of "drop ?off file"]
      by (simp add: load_lines_append)
    finally show ?thesis by (simp add: view_create)
  qed
qed

lemma load_in_step:
  "whole_lines file \<Longrightarrow> in_step parse validate file (load parse validate file c0)"
  by (simp add: in_step_def byteOffset_load view_load)

lemma log_step_in_step:
  assumes "in_step parse validate file c"
    and "\<forall>bytes\<in>set (appended [op]). whole_lines bytes"
    and "log_step parse validate (file, c) op = (file', c')"
  shows "in_step parse validate file' c' \<and> file' = file @ concat (appended [op])"
proof (cases op)
  case (Append bytes)
  with assms show ?thesis by (auto simp: in_step_def whole_lines_append)
next
  case Refresh
  with assms(3) have f: "file' = file" and c: "c' = loadNewMessages parse validate file c"
    by auto
  from assms(1) have "whole_lines file" by (simp add: in_step_def)
  then show ?thesis
    using refresh_in_step [OF assms(1)] Refresh by (simp add: in_step_def f c)
qed

lemma appended_append: "appended (xs @ ys) = appended xs @ appended ys"
  by (induction xs rule: appended.induct) simp_all

lemma log_run_in_step:
  assumes "in_step parse validate content c"
    and "\<forall>bytes\<in>set (appended ops). whole_lines bytes"
    and "log_run parse validate ops (content, c) = (content', c')"
  shows "in_step parse validate content' c' \<and> content' = content @ concat (appended ops)"
  using assms
proof (induction ops arbitrary: content c)
  case Nil
  then show ?case by (simp add: log_run_def)
next
  case (Cons op ops)
  obtain content1 c1 where s: "log_step parse validate (content, c) op = (content1, c1)"
    by (cases "log_step parse validate (content, c) op")
  have a1: "\<forall>bytes\<in>set (appended [op]). whole_lines bytes"
    using Cons.prems(2) by (cases op) simp_all
  have a2: "\<forall>bytes\<in>set (appended ops). whole_lines bytes"
    using Cons.prems(2) by (cases op) simp_all
  from log_step_in_step [OF Cons.prems(1) a1 s]
  have i1: "in_step parse validate content1 c1" and f1: "content1 = content @ concat (appended [op])"
    by blast+
  have r: "log_run parse validate ops (content1, c1) = (content', c')"
    using Cons.prems(3) s by (simp add: log_run_def)
  from Cons.IH [OF i1 a2 r] f1 show ?case
    by (cases op) auto
qed

lemma log_run_snoc:
  "log_run parse validate (ops @ [op]) fc = log_step parse validate (log_run parse validate ops fc) op"
  by (simp add: log_run_def)

text \<open>
  C3, as amended. The file holds whole lines when it is first parsed, and every append
  adds whole lines (bytes that end with a line feed, or none). Then after any sequence of
  appends and refreshes that ends with a refresh, the reader holds the records that a
  single full parse of the final content gives, in the same order, with the same session
  identifier and side chain flag, and its cursor is the size of the file. For every
  file, a refresh right after a full parse changes nothing: no record is added and the
  cursor stays.
\<close>

theorem refresh_converges:
  assumes "whole_lines file0" and "\<forall>bytes\<in>set (appended ops). whole_lines bytes"
    and "log_run parse validate (ops @ [Refresh]) (file0, load parse validate file0 c0) = (file, c)"
  shows "file = file0 @ concat (appended ops) \<and>
         messages c = messages (load parse validate file c0) \<and>
         conv_sessionId c = conv_sessionId (load parse validate file c0) \<and>
         conv_isSidechain c = conv_isSidechain (load parse validate file c0) \<and>
         byteOffset c = byteOffset (load parse validate file c0) \<and>
         loadNewMessages parse validate content (load parse validate content c') =
           load parse validate content c'"
proof -
  obtain file1 c1 where
    r: "log_run parse validate ops (file0, load parse validate file0 c0) = (file1, c1)"
    by (cases "log_run parse validate ops (file0, load parse validate file0 c0)")
  from log_run_in_step [OF load_in_step [OF assms(1)] assms(2) r]
  have i: "in_step parse validate file1 c1" and f: "file1 = file0 @ concat (appended ops)"
    by blast+
  from assms(3) r have "file = file1" and c: "c = loadNewMessages parse validate file1 c1"
    by (auto simp: log_run_snoc)
  with refresh_in_step [OF i]
  have "view c = view (load parse validate file c0)" and "byteOffset c = length file"
    by (simp_all add: view_load)
  moreover have "loadNewMessages parse validate content (load parse validate content c') =
      load parse validate content c'"
    by (simp add: loadNewMessages_def Let_def getFileSize_def byteOffset_load)
  ultimately show ?thesis
    using f \<open>file = file1\<close> by (simp add: view_def byteOffset_load)
qed

theorem refresh_converges_witness:
  "whole_lines (unlines [line_snapshot]) \<and>
   fst (log_run sample_parse sample_record (sample_ops @ [Refresh])
      (unlines [line_snapshot],
       load sample_parse sample_record (unlines [line_snapshot]) new_conversation)) =
     unlines [line_snapshot] @ concat (appended sample_ops) \<and>
   messages (snd (log_run sample_parse sample_record (sample_ops @ [Refresh])
      (unlines [line_snapshot],
       load sample_parse sample_record (unlines [line_snapshot]) new_conversation))) =
     messages (load sample_parse sample_record
       (fst (log_run sample_parse sample_record (sample_ops @ [Refresh])
          (unlines [line_snapshot],
           load sample_parse sample_record (unlines [line_snapshot]) new_conversation)))
       new_conversation)"
proof -
  have a: "whole_lines (unlines [line_snapshot])" by (rule whole_lines_unlines)
  have b: "\<forall>bytes\<in>set (appended sample_ops). whole_lines bytes"
    by (simp add: sample_ops_def whole_lines_unlines)
  show ?thesis
    using a refresh_converges [OF a b prod.collapse [symmetric]] by blast
qed

text \<open>
  C3 as stated does not hold when a refresh falls inside a line: the cursor moves to
  the end of the file, so the first part of the line is parsed alone and the rest of it
  alone at the next refresh. The first sample line is appended in two pieces with a
  refresh after each; the reader ends with no record, and a full parse of the same
  final content gives one.
\<close>

theorem split_line_counterexample:
  "line_user_1_head @ line_user_1_tail = line_user_1 \<and>
   fst (log_run sample_parse sample_record split_ops ([], create sample_parse sample_record [])) =
     line_user_1 @ [LF] \<and>
   messages (snd (log_run sample_parse sample_record split_ops
      ([], create sample_parse sample_record []))) = [] \<and>
   messages (create sample_parse sample_record (line_user_1 @ [LF])) = [record_user_1]"
proof -
  define c0 where "c0 = create sample_parse sample_record []"
  have c0: "messages c0 = []" "byteOffset c0 = 0"
    by (simp_all add: c0_def create_messages records_of_Nil)
      (simp add: create_def load_def Let_def getFileSize_def)
  define c1 where "c1 = loadNewMessages sample_parse sample_record line_user_1_head c0"
  have c1: "messages c1 = []" "byteOffset c1 = 60"
    by (simp_all add: c1_def loadNewMessages_messages loadNewMessages_byteOffset c0 head_facts
        records_of_Cons records_of_Nil decode_record_def)
  define c2 where "c2 = loadNewMessages sample_parse sample_record
    (line_user_1_head @ line_user_1_tail @ [LF]) c1"
  have c2: "messages c2 = []"
    by (simp add: c2_def loadNewMessages_messages c1 head_facts tail_facts
        records_of_Cons records_of_Nil decode_record_def)
  have run: "log_run sample_parse sample_record split_ops ([], c0) =
      (line_user_1_head @ line_user_1_tail @ [LF], c2)"
    by (simp add: log_run_def split_ops_def c1_def c2_def)
  have "readline_lines (line_user_1 @ [LF]) = [line_user_1]"
    using readline_lines_line [of line_user_1 "[]"] by (simp add: sample_lines_plain)
  then have "messages (create sample_parse sample_record (line_user_1 @ [LF])) = [record_user_1]"
    by (simp add: create_messages records_of_Cons records_of_Nil decode_sample_lines)
  then show ?thesis
    using run c2 line_user_1_split by (simp add: c0_def)
qed

subsection \<open>Deleting a record\<close>

lemma findIndex_None: "findIndex P xs = None \<longleftrightarrow> (\<forall>x\<in>set xs. \<not> P x)"
  by (induction xs) auto

lemma findIndex_Some:
  "findIndex P xs = Some i \<Longrightarrow> i < length xs \<and> P (xs ! i) \<and> (\<forall>j<i. \<not> P (xs ! j))"
proof (induction xs arbitrary: i)
  case Nil
  then show ?case by simp
next
  case (Cons x xs)
  show ?case
  proof (cases "P x")
    case True
    with Cons.prems show ?thesis by simp
  next
    case False
    with Cons.prems obtain k where k: "findIndex P xs = Some k" "i = Suc k" by auto
    from Cons.IH [OF k(1)] False k(2) show ?thesis
      by (auto simp: nth_Cons split: nat.splits)
  qed
qed

lemma deleteMessage_absent:
  "\<forall>m\<in>set (messages c). \<not> matches wanted m \<Longrightarrow>
     deleteMessage stringify wanted (file, c) = (False, file, c)"
  using findIndex_None [of "matches wanted" "messages c"] by (simp add: deleteMessage_def)

lemma deleteMessage_found:
  assumes "findIndex (matches wanted) (messages c) = Some i"
    and "remaining = take i (messages c) @ drop (Suc i) (messages c)"
    and "written = (if join [LF] (map stringify remaining) \<noteq> []
                    then join [LF] (map stringify remaining) @ [LF] else [])"
  shows "deleteMessage stringify wanted (file, c) =
     (True, written, c\<lparr>messages := remaining, byteOffset := length written\<rparr>)"
  unfolding deleteMessage_def assms(2,3) using assms(1) by (simp add: Let_def)

lemma remaining_subset: "m \<in> set (take i xs @ drop (Suc i) xs) \<Longrightarrow> m \<in> set xs"
  by (auto dest: in_set_takeD in_set_dropD)

lemma deleteMessage_True:
  assumes "deleteMessage stringify wanted (file, c) = (True, file', c')"
  shows "\<exists>i. findIndex (matches wanted) (messages c) = Some i \<and>
           messages c' = take i (messages c) @ drop (Suc i) (messages c) \<and>
           byteOffset c' = length file' \<and>
           ((\<forall>m\<in>set (messages c). stringify m \<noteq> []) \<longrightarrow>
              file' = unlines (map stringify (messages c')))"
proof (cases "findIndex (matches wanted) (messages c)")
  case None
  with assms(1) show ?thesis by (simp add: deleteMessage_def)
next
  case (Some i)
  define remaining where "remaining = take i (messages c) @ drop (Suc i) (messages c)"
  define written where "written = (if join [LF] (map stringify remaining) \<noteq> []
                    then join [LF] (map stringify remaining) @ [LF] else [])"
  have "(True, file', c') =
      (True, written, c\<lparr>messages := remaining, byteOffset := length written\<rparr>)"
    by (rule trans [OF sym [OF assms(1)]
          deleteMessage_found [OF Some remaining_def written_def]])
  then have f: "file' = written"
    and c: "c' = c\<lparr>messages := remaining, byteOffset := length written\<rparr>"
    by (simp_all only: prod.inject)
  have 1: "messages c' = take i (messages c) @ drop (Suc i) (messages c)"
    by (simp add: c remaining_def)
  have 2: "byteOffset c' = length file'"
    by (simp add: c f)
  have 3: "(\<forall>m\<in>set (messages c). stringify m \<noteq> []) \<longrightarrow>
      file' = unlines (map stringify (messages c'))"
  proof
    assume ne: "\<forall>m\<in>set (messages c). stringify m \<noteq> []"
    have "\<forall>m\<in>set remaining. stringify m \<noteq> []"
    proof
      fix m assume "m \<in> set remaining"
      then have "m \<in> set (messages c)" unfolding remaining_def by (rule remaining_subset)
      with ne show "stringify m \<noteq> []" by simp
    qed
    then have "\<forall>x\<in>set (map stringify remaining). x \<noteq> []" by simp
    from join_unlines [OF this] have "written = unlines (map stringify remaining)"
      by (simp only: written_def)
    then show "file' = unlines (map stringify (messages c'))"
      by (simp add: c f)
  qed
  show ?thesis
    by (rule exI [of _ i]) (intro conjI Some 1 2 3)
qed

lemma remaining_length: "i < length xs \<Longrightarrow> Suc (length (take i xs @ drop (Suc i) xs)) = length xs"
  by simp

lemma records_of_stringify:
  "\<forall>m\<in>set ms. decode_record parse validate (stringify m) = Some m \<Longrightarrow>
     records_of parse validate (map stringify ms) = ms"
  by (induction ms) (simp_all add: records_of_Nil records_of_Cons)

lemma load_messages:
  "messages (load parse validate file c0) = records_of parse validate (readline_lines file)"
  by (simp add: load_def jsonl_load_def Let_def load_lines_messages)

lemma sample_conversation_messages:
  "messages sample_conversation = [record_snapshot, record_user_1, record_user_2]"
proof -
  have "readline_lines sample_log = [line_snapshot, line_user_1, line_user_2]"
    unfolding sample_log_def by (intro readline_lines_unlines) (simp add: sample_lines_plain)
  then show ?thesis
    by (simp add: sample_conversation_def create_messages records_of_Cons records_of_Nil
        decode_sample_lines)
qed

lemma sample_lines_nonempty:
  "line_user_1 \<noteq> []" "line_user_2 \<noteq> []" "line_snapshot \<noteq> []"
  by (simp_all add: line_user_1_def line_user_2_def line_snapshot_def)

lemma sample_roundtrip:
  "\<forall>m\<in>set (messages sample_conversation).
     decode_record sample_parse sample_record (sample_stringify m) = Some m \<and>
     sample_stringify m \<noteq> [] \<and>
     LF \<notin> set (sample_stringify m) \<and> CR \<notin> set (sample_stringify m)"
  by (simp add: sample_conversation_messages sample_stringify_records decode_sample_lines
      sample_lines_nonempty sample_lines_plain)

lemma sample_matches:
  "\<not> matches ''22222222-2222-4222-8222-222222222222'' record_snapshot"
  "\<not> matches ''22222222-2222-4222-8222-222222222222'' record_user_1"
  "matches ''22222222-2222-4222-8222-222222222222'' record_user_2"
  "\<not> matches ''no such record'' record_snapshot"
  "\<not> matches ''no such record'' record_user_1"
  "\<not> matches ''no such record'' record_user_2"
  by (simp_all add: record_snapshot_def record_user_1_def record_user_2_def)

lemma sample_delete:
  "deleteMessage sample_stringify ''22222222-2222-4222-8222-222222222222''
     (sample_log, sample_conversation) =
   (True, unlines [line_snapshot, line_user_1],
    sample_conversation\<lparr>messages := [record_snapshot, record_user_1],
      byteOffset := length (unlines [line_snapshot, line_user_1])\<rparr>)"
proof -
  have i: "findIndex (matches ''22222222-2222-4222-8222-222222222222'')
      (messages sample_conversation) = Some 2"
    by (simp add: sample_conversation_messages sample_matches)
  have r: "[record_snapshot, record_user_1] =
      take 2 (messages sample_conversation) @ drop (Suc 2) (messages sample_conversation)"
    by (simp add: sample_conversation_messages)
  have w: "unlines [line_snapshot, line_user_1] =
      (if join [LF] (map sample_stringify [record_snapshot, record_user_1]) \<noteq> []
       then join [LF] (map sample_stringify [record_snapshot, record_user_1]) @ [LF] else [])"
    by (simp add: sample_stringify_records sample_lines_nonempty unlines_def)
  show ?thesis by (rule deleteMessage_found [OF i r w])
qed

text \<open>
  C7. \<open>deleteMessage\<close> with an identifier that no record matches returns false and
  leaves the file, byte for byte, and the reader as they are. With an identifier that
  some record matches (a snapshot by its \<open>messageId\<close>, a turn by its \<open>uuid\<close>) it returns
  true and removes exactly one record, the first that matches. When the records the
  reader holds survive serialisation (decoding the serialisation of a record gives the
  record back, and the serialisation is a text that is not empty and has no line end in
  it), a full parse of the rewritten file gives the records that remain, in their order.
\<close>

theorem deleteMessage_removes_one:
  "((\<forall>m\<in>set (messages c). \<not> matches wanted m) \<longrightarrow>
      deleteMessage stringify wanted (file, c) = (False, file, c)) \<and>
   ((\<exists>m\<in>set (messages c). matches wanted m) \<longrightarrow>
      (\<exists>i file' c'.
         deleteMessage stringify wanted (file, c) = (True, file', c') \<and>
         i < length (messages c) \<and> matches wanted (messages c ! i) \<and>
         (\<forall>j<i. \<not> matches wanted (messages c ! j)) \<and>
         messages c' = take i (messages c) @ drop (Suc i) (messages c) \<and>
         Suc (length (messages c')) = length (messages c) \<and>
         ((\<forall>m\<in>set (messages c).
             decode_record parse validate (stringify m) = Some m \<and> stringify m \<noteq> [] \<and>
             LF \<notin> set (stringify m) \<and> CR \<notin> set (stringify m)) \<longrightarrow>
          messages (load parse validate file' c0) = messages c')))"
proof (intro conjI impI)
  assume "\<forall>m\<in>set (messages c). \<not> matches wanted m"
  then show "deleteMessage stringify wanted (file, c) = (False, file, c)"
    by (rule deleteMessage_absent)
next
  assume "\<exists>m\<in>set (messages c). matches wanted m"
  then obtain i where i: "findIndex (matches wanted) (messages c) = Some i"
    using findIndex_None [of "matches wanted" "messages c"]
    by (cases "findIndex (matches wanted) (messages c)") auto
  obtain file' c' where d: "deleteMessage stringify wanted (file, c) = (True, file', c')"
    using deleteMessage_found [OF i refl refl] by blast
  from deleteMessage_True [OF d] i
  have c': "messages c' = take i (messages c) @ drop (Suc i) (messages c)"
    and f': "(\<forall>m\<in>set (messages c). stringify m \<noteq> []) \<longrightarrow>
      file' = unlines (map stringify (messages c'))"
    by auto
  have sub: "m \<in> set (messages c)" if "m \<in> set (messages c')" for m
    using that unfolding c' by (rule remaining_subset)
  have reparse: "(\<forall>m\<in>set (messages c).
             decode_record parse validate (stringify m) = Some m \<and> stringify m \<noteq> [] \<and>
             LF \<notin> set (stringify m) \<and> CR \<notin> set (stringify m)) \<longrightarrow>
          messages (load parse validate file' c0) = messages c'"
  proof
    assume rt: "\<forall>m\<in>set (messages c).
             decode_record parse validate (stringify m) = Some m \<and> stringify m \<noteq> [] \<and>
             LF \<notin> set (stringify m) \<and> CR \<notin> set (stringify m)"
    then have fw: "file' = unlines (map stringify (messages c'))"
      using f' by simp
    have "\<forall>m\<in>set (messages c'). LF \<notin> set (stringify m) \<and> CR \<notin> set (stringify m)"
      using rt sub by simp
    then have plain: "\<forall>l\<in>set (map stringify (messages c')). LF \<notin> set l \<and> CR \<notin> set l"
      by simp
    have dec: "\<forall>m\<in>set (messages c'). decode_record parse validate (stringify m) = Some m"
      using rt sub by simp
    show "messages (load parse validate file' c0) = messages c'"
      by (simp add: load_messages fw readline_lines_unlines [OF plain]
          records_of_stringify [OF dec])
  qed
  from findIndex_Some [OF i]
  have found: "i < length (messages c)" "matches wanted (messages c ! i)"
    "\<forall>j<i. \<not> matches wanted (messages c ! j)"
    by simp_all
  from found(1) have len: "Suc (length (messages c')) = length (messages c)"
    unfolding c' by (rule remaining_length)
  show "\<exists>i file' c'.
      deleteMessage stringify wanted (file, c) = (True, file', c') \<and>
      i < length (messages c) \<and> matches wanted (messages c ! i) \<and>
      (\<forall>j<i. \<not> matches wanted (messages c ! j)) \<and>
      messages c' = take i (messages c) @ drop (Suc i) (messages c) \<and>
      Suc (length (messages c')) = length (messages c) \<and>
      ((\<forall>m\<in>set (messages c).
          decode_record parse validate (stringify m) = Some m \<and> stringify m \<noteq> [] \<and>
          LF \<notin> set (stringify m) \<and> CR \<notin> set (stringify m)) \<longrightarrow>
       messages (load parse validate file' c0) = messages c')"
    by (intro exI [of _ i] exI [of _ file'] exI [of _ c'] conjI d found c' len reparse)
qed

theorem deleteMessage_removes_one_witness:
  "deleteMessage sample_stringify ''no such record'' (sample_log, sample_conversation) =
     (False, sample_log, sample_conversation) \<and>
   fst (deleteMessage sample_stringify ''22222222-2222-4222-8222-222222222222''
      (sample_log, sample_conversation)) = True \<and>
   messages (load sample_parse sample_record
      (fst (snd (deleteMessage sample_stringify ''22222222-2222-4222-8222-222222222222''
         (sample_log, sample_conversation)))) new_conversation) =
     [record_snapshot, record_user_1]"
proof -
  have absent: "\<forall>m\<in>set (messages sample_conversation). \<not> matches ''no such record'' m"
    by (simp add: sample_conversation_messages sample_matches)
  have present: "\<exists>m\<in>set (messages sample_conversation).
      matches ''22222222-2222-4222-8222-222222222222'' m"
    by (simp add: sample_conversation_messages sample_matches)
  from deleteMessage_removes_one [of sample_conversation "''no such record''" sample_stringify
      sample_log, THEN conjunct1, THEN mp, OF absent]
  have a: "deleteMessage sample_stringify ''no such record'' (sample_log, sample_conversation) =
      (False, sample_log, sample_conversation)"
    .
  from deleteMessage_removes_one [of sample_conversation
      "''22222222-2222-4222-8222-222222222222''" sample_stringify sample_log sample_parse
      sample_record new_conversation, THEN conjunct2, THEN mp, OF present]
  obtain file' c' where
    d: "deleteMessage sample_stringify ''22222222-2222-4222-8222-222222222222''
          (sample_log, sample_conversation) = (True, file', c')"
    and l: "messages (load sample_parse sample_record file' new_conversation) = messages c'"
    using sample_roundtrip by (elim conjE exE impE)
  have "(True, file', c') =
      (True, unlines [line_snapshot, line_user_1],
       sample_conversation\<lparr>messages := [record_snapshot, record_user_1],
         byteOffset := length (unlines [line_snapshot, line_user_1])\<rparr>)"
    by (rule trans [OF sym [OF d] sample_delete])
  then have f: "file' = unlines [line_snapshot, line_user_1]"
    and c: "c' = sample_conversation\<lparr>messages := [record_snapshot, record_user_1],
      byteOffset := length (unlines [line_snapshot, line_user_1])\<rparr>"
    by (simp_all only: prod.inject)
  from l have "messages (load sample_parse sample_record (unlines [line_snapshot, line_user_1])
      new_conversation) = [record_snapshot, record_user_1]"
    by (simp add: f c)
  then show ?thesis
    unfolding sample_delete using a by simp
qed

text \<open>
  C8, as amended. After a successful \<open>deleteMessage\<close> the file holds the serialisation
  of each remaining record followed by a line feed (the serialisations joined by line
  feeds, and one more line feed at the end; no serialisation is empty), or nothing when
  no record remains, and the cursor is the byte length of that content. A refresh right
  after it changes nothing; after bytes have been appended, a refresh reads these bytes
  and no others: the reader then holds the remaining records followed by the records of
  the appended bytes, and its cursor is the new size of the file.
\<close>

theorem deleteMessage_rewrites_file:
  assumes "deleteMessage stringify wanted (file, c) = (True, file', c')"
  shows "((\<forall>m\<in>set (messages c). stringify m \<noteq> []) \<longrightarrow>
            file' = unlines (map stringify (messages c'))) \<and>
         byteOffset c' = length file' \<and>
         loadNewMessages parse validate file' c' = c' \<and>
         messages (loadNewMessages parse validate (file' @ bytes) c') =
           messages c' @ messages (create parse validate bytes) \<and>
         byteOffset (loadNewMessages parse validate (file' @ bytes) c') = length (file' @ bytes)"
proof -
  from deleteMessage_True [OF assms]
  have f': "(\<forall>m\<in>set (messages c). stringify m \<noteq> []) \<longrightarrow>
      file' = unlines (map stringify (messages c'))"
    and b: "byteOffset c' = length file'"
    by auto
  have "loadNewMessages parse validate file' c' = c'"
    by (simp add: loadNewMessages_def Let_def getFileSize_def b)
  moreover have "messages (loadNewMessages parse validate (file' @ bytes) c') =
      messages c' @ messages (create parse validate bytes)"
    by (cases "bytes = []")
      (simp_all add: loadNewMessages_messages b create_messages records_of_Nil)
  moreover have "byteOffset (loadNewMessages parse validate (file' @ bytes) c') =
      length (file' @ bytes)"
    by (simp add: loadNewMessages_byteOffset b)
  ultimately show ?thesis using f' b by blast
qed

theorem deleteMessage_rewrites_file_witness:
  "deleteMessage sample_stringify ''22222222-2222-4222-8222-222222222222''
     (sample_log, sample_conversation) =
   (True, unlines [line_snapshot, line_user_1],
    sample_conversation\<lparr>messages := [record_snapshot, record_user_1],
      byteOffset := length (unlines [line_snapshot, line_user_1])\<rparr>) \<and>
   unlines [line_snapshot, line_user_1] =
     unlines (map sample_stringify [record_snapshot, record_user_1]) \<and>
   loadNewMessages sample_parse sample_record (unlines [line_snapshot, line_user_1])
     (sample_conversation\<lparr>messages := [record_snapshot, record_user_1],
        byteOffset := length (unlines [line_snapshot, line_user_1])\<rparr>) =
     sample_conversation\<lparr>messages := [record_snapshot, record_user_1],
        byteOffset := length (unlines [line_snapshot, line_user_1])\<rparr> \<and>
   messages (loadNewMessages sample_parse sample_record
       (unlines [line_snapshot, line_user_1] @ unlines [line_user_2])
       (sample_conversation\<lparr>messages := [record_snapshot, record_user_1],
          byteOffset := length (unlines [line_snapshot, line_user_1])\<rparr>)) =
     [record_snapshot, record_user_1] @
     messages (create sample_parse sample_record (unlines [line_user_2]))"
proof -
  have ne: "\<forall>m\<in>set (messages sample_conversation). sample_stringify m \<noteq> []"
    using sample_roundtrip by simp
  note t = deleteMessage_rewrites_file [OF sample_delete, of sample_parse sample_record
      "unlines [line_user_2]"]
  from t ne have 1: "unlines [line_snapshot, line_user_1] =
      unlines (map sample_stringify [record_snapshot, record_user_1])"
    by simp
  from t have 2: "loadNewMessages sample_parse sample_record (unlines [line_snapshot, line_user_1])
     (sample_conversation\<lparr>messages := [record_snapshot, record_user_1],
        byteOffset := length (unlines [line_snapshot, line_user_1])\<rparr>) =
     sample_conversation\<lparr>messages := [record_snapshot, record_user_1],
        byteOffset := length (unlines [line_snapshot, line_user_1])\<rparr>"
    by (rule conjunct1 [OF conjunct2 [OF conjunct2]])
  from t have 3: "messages (loadNewMessages sample_parse sample_record
       (unlines [line_snapshot, line_user_1] @ unlines [line_user_2])
       (sample_conversation\<lparr>messages := [record_snapshot, record_user_1],
          byteOffset := length (unlines [line_snapshot, line_user_1])\<rparr>)) =
     messages (sample_conversation\<lparr>messages := [record_snapshot, record_user_1],
          byteOffset := length (unlines [line_snapshot, line_user_1])\<rparr>) @
     messages (create sample_parse sample_record (unlines [line_user_2]))"
    by (rule conjunct1 [OF conjunct2 [OF conjunct2 [OF conjunct2]]])
  from 3 have 4: "messages (loadNewMessages sample_parse sample_record
       (unlines [line_snapshot, line_user_1] @ unlines [line_user_2])
       (sample_conversation\<lparr>messages := [record_snapshot, record_user_1],
          byteOffset := length (unlines [line_snapshot, line_user_1])\<rparr>)) =
     [record_snapshot, record_user_1] @
     messages (create sample_parse sample_record (unlines [line_user_2]))"
    by simp
  show ?thesis by (intro conjI sample_delete 1 2 4)
qed

text \<open>
  C8 as stated does not hold: \<open>deleteMessage\<close> writes \<open>content + '\n'\<close>, so the file is
  not the newline-joined serialisation but that text with a line feed after it. Deleting
  the last of the three sample records leaves a file that ends with a line feed.
\<close>

theorem trailing_newline_counterexample:
  "fst (snd (deleteMessage sample_stringify ''22222222-2222-4222-8222-222222222222''
      (sample_log, sample_conversation))) =
     join [LF] (map sample_stringify
       (messages (snd (snd (deleteMessage sample_stringify
          ''22222222-2222-4222-8222-222222222222'' (sample_log, sample_conversation)))))) @ [LF] \<and>
   fst (snd (deleteMessage sample_stringify ''22222222-2222-4222-8222-222222222222''
      (sample_log, sample_conversation))) \<noteq>
     join [LF] (map sample_stringify
       (messages (snd (snd (deleteMessage sample_stringify
          ''22222222-2222-4222-8222-222222222222'' (sample_log, sample_conversation))))))"
  unfolding sample_delete by (simp add: unlines_def sample_stringify_records)

end
